theory Spec2Isabelle
  imports Main "HOL-Library.Sublist"
begin

section \<open>Data model\<close>

text \<open>
  Instants (JavaScript \<open>Date\<close> values, \<open>TIMESTAMP(3)\<close> columns) are integers:
  milliseconds since the epoch. Rows of a table are kept in a list, in insertion order.
\<close>

datatype BookingStatus = CANCELLED | ACCEPTED | REJECTED | PENDING | AWAITING_HOST | CONFIRMED

datatype VideoProvider = GoogleMeet | Zoom

record Booking =
  b_id :: nat
  b_uid :: string
  b_userId :: int
  b_startTime :: int
  b_endTime :: int
  b_title :: string
  b_description :: "string option"
  b_status :: BookingStatus
  b_attendeeName :: "string option"
  b_attendeeEmail :: "string option"
  b_videoProvider :: "VideoProvider option"
  b_videoLink :: "string option"
  b_calendarEventId :: "string option"
  b_timezone :: "string option"

record AvailabilityBlock =
  ab_id :: string
  ab_userId :: int
  ab_dayOfWeek :: int
  ab_startTime :: int
  ab_endTime :: int
  ab_timezone :: string
  ab_isActive :: bool

record CalendarIntegration =
  ci_id :: string
  ci_userId :: int
  ci_type :: string
  ci_accessToken :: string
  ci_refreshToken :: "string option"
  ci_tokenExpiresAt :: "int option"
  ci_calendarId :: string
  ci_syncToken :: "string option"
  ci_lastSyncAt :: "int option"
  ci_syncStatus :: string
  ci_syncError :: "string option"

record CalendarEvent =
  ev_calendarIntegrationId :: string
  ev_externalEventId :: string
  ev_startTime :: int
  ev_endTime :: int
  ev_title :: string
  ev_isBusy :: bool
  ev_syncedAt :: int

text \<open>The persisted state: the four tables of the scheduler and the booking id sequence.\<close>

record db =
  bookings :: "Booking list"
  nextBookingId :: nat
  availabilityBlocks :: "AvailabilityBlock list"
  calendarIntegrations :: "CalendarIntegration list"
  calendarEvents :: "CalendarEvent list"

text \<open>JavaScript truthiness of an optional string: \<open>undefined\<close>, \<open>null\<close> and \<open>""\<close> are falsy.\<close>

fun truthy :: "string option \<Rightarrow> bool" where
  "truthy None = False"
| "truthy (Some s) = (s \<noteq> [])"

section \<open>MinimalBookingService.createPendingBooking\<close>

datatype error = ZodError | BAD_REQUEST string | CONFLICT string | NOT_FOUND string

record CreatePendingBookingInput =
  in_userId :: int
  in_startTime :: int
  in_endTime :: int
  in_attendeeName :: string
  in_attendeeEmail :: string
  in_notes :: "string option"
  in_videoProvider :: "VideoProvider option"
  in_timezone :: string
  in_title :: "string option"

record BookingResult =
  r_id :: nat
  r_uid :: string
  r_status :: BookingStatus
  r_startTime :: int
  r_endTime :: int
  r_attendeeName :: "string option"
  r_attendeeEmail :: "string option"
  r_videoProvider :: "VideoProvider option"
  r_videoLink :: "string option"
  r_calendarEventId :: "string option"

text \<open>
  What the call reads from outside the store: the clock (\<open>new Date()\<close> of the future-start
  check), the e-mail syntax check of the schema, and the generated uid of the new row.
\<close>

record booking_env =
  now :: int
  isEmail :: "string \<Rightarrow> bool"
  newUid :: string

definition createBookingInputSchema :: "booking_env \<Rightarrow> CreatePendingBookingInput \<Rightarrow> bool" where
  "createBookingInputSchema env input \<longleftrightarrow>
     1 \<le> length (in_attendeeName input) \<and> length (in_attendeeName input) \<le> 100 \<and>
     isEmail env (in_attendeeEmail input) \<and>
     (case in_notes input of None \<Rightarrow> True | Some n \<Rightarrow> length n \<le> 500)"

definition minDuration :: int where
  "minDuration = 15 * 60 * 1000"

definition maxDuration :: int where
  "maxDuration = 8 * 60 * 60 * 1000"

text \<open>The three \<open>AND\<close> clauses of the \<open>OR\<close> in the \<open>findFirst\<close> filter, in source order.\<close>

definition startsDuring :: "CreatePendingBookingInput \<Rightarrow> Booking \<Rightarrow> bool" where
  "startsDuring v b \<longleftrightarrow> b_startTime b \<le> in_startTime v \<and> b_endTime b > in_startTime v"

definition endsDuring :: "CreatePendingBookingInput \<Rightarrow> Booking \<Rightarrow> bool" where
  "endsDuring v b \<longleftrightarrow> b_startTime b < in_endTime v \<and> b_endTime b \<ge> in_endTime v"

definition containsExisting :: "CreatePendingBookingInput \<Rightarrow> Booking \<Rightarrow> bool" where
  "containsExisting v b \<longleftrightarrow> b_startTime b \<ge> in_startTime v \<and> b_endTime b \<le> in_endTime v"

definition overlappingWhere :: "CreatePendingBookingInput \<Rightarrow> Booking \<Rightarrow> bool" where
  "overlappingWhere v b \<longleftrightarrow>
     b_userId b = in_userId v \<and>
     (b_status b = PENDING \<or> b_status b = CONFIRMED) \<and>
     (startsDuring v b \<or> endsDuring v b \<or> containsExisting v b)"

definition newBooking :: "booking_env \<Rightarrow> CreatePendingBookingInput \<Rightarrow> nat \<Rightarrow> Booking" where
  "newBooking env v n =
     \<lparr> b_id = n,
       b_uid = newUid env,
       b_userId = in_userId v,
       b_startTime = in_startTime v,
       b_endTime = in_endTime v,
       b_title = (if truthy (in_title v) then the (in_title v)
                  else ''Meeting with '' @ in_attendeeName v),
       b_description = in_notes v,
       b_status = PENDING,
       b_attendeeName = Some (in_attendeeName v),
       b_attendeeEmail = Some (in_attendeeEmail v),
       b_videoProvider = in_videoProvider v,
       b_videoLink = None,
       b_calendarEventId = None,
       b_timezone = Some (in_timezone v) \<rparr>"

definition toResult :: "Booking \<Rightarrow> BookingResult" where
  "toResult b =
     \<lparr> r_id = b_id b, r_uid = b_uid b, r_status = b_status b,
       r_startTime = b_startTime b, r_endTime = b_endTime b,
       r_attendeeName = b_attendeeName b, r_attendeeEmail = b_attendeeEmail b,
       r_videoProvider = b_videoProvider b, r_videoLink = b_videoLink b,
       r_calendarEventId = b_calendarEventId b \<rparr>"

text \<open>
  The body of the \<open>$transaction\<close> callback: look for an overlapping row, throw CONFLICT if
  there is one, otherwise insert the pending row. The notification e-mails that follow the
  insert write nothing to the store and their failure is caught, so they do not appear.
\<close>

definition bookingTransaction ::
  "booking_env \<Rightarrow> CreatePendingBookingInput \<Rightarrow> db \<Rightarrow> (error + BookingResult) \<times> db" where
  "bookingTransaction env v d =
     (case find (overlappingWhere v) (bookings d) of
        Some overlappingBooking \<Rightarrow> (Inl (CONFLICT ''Time slot is no longer available''), d)
      | None \<Rightarrow>
          (let booking = newBooking env v (nextBookingId d)
           in (Inr (toResult booking),
               d\<lparr> bookings := bookings d @ [booking],
                  nextBookingId := Suc (nextBookingId d) \<rparr>)))"

text \<open>
  The whole call returns the outcome (a thrown error or the result) with the store as the
  call leaves it. The three validation throws come before the transaction is opened.
\<close>

definition createPendingBooking ::
  "booking_env \<Rightarrow> CreatePendingBookingInput \<Rightarrow> db \<Rightarrow> (error + BookingResult) \<times> db" where
  "createPendingBooking env input d =
     (if \<not> createBookingInputSchema env input then (Inl ZodError, d)
      else let durationMs = in_endTime input - in_startTime input in
        if durationMs < minDuration
          then (Inl (BAD_REQUEST ''Booking duration must be at least 15 minutes''), d)
        else if durationMs > maxDuration
          then (Inl (BAD_REQUEST ''Booking duration cannot exceed 8 hours''), d)
        else if in_startTime input < now env
          then (Inl (BAD_REQUEST ''Cannot book time slots in the past''), d)
        else bookingTransaction env input d)"

text \<open>The half-open overlap test of two intervals \<open>[a, b)\<close> and \<open>[c, d)\<close>.\<close>

definition halfOpenOverlap :: "int \<Rightarrow> int \<Rightarrow> int \<Rightarrow> int \<Rightarrow> bool" where
  "halfOpenOverlap a b c d \<longleftrightarrow> a < d \<and> b > c"

text \<open>Validation errors: the schema's own error and every BAD_REQUEST.\<close>

fun isValidation :: "error \<Rightarrow> bool" where
  "isValidation ZodError = True"
| "isValidation (BAD_REQUEST m) = True"
| "isValidation (CONFLICT m) = False"
| "isValidation (NOT_FOUND m) = False"

section \<open>Public booking router: createBooking\<close>

text \<open>
  The public \<open>createBooking\<close> mutation, after its rate-limit middleware. It reads the
  user table, which the scheduler never writes and which is passed beside the store.
  \<open>isDatetime\<close> is the schema's ISO date-time check, \<open>parseDateTime\<close> is
  \<open>new Date(string)\<close>, with \<open>None\<close> for an invalid date. The response's
  \<open>status\<close> field is the constant \<open>pending\<close> and is left out.
\<close>

record User =
  u_id :: int
  u_username :: string
  u_name :: "string option"

record CreateBookingRequest =
  rq_username :: string
  rq_startTime :: string
  rq_endTime :: string
  rq_attendeeName :: string
  rq_attendeeEmail :: string
  rq_notes :: "string option"
  rq_videoProvider :: "VideoProvider option"
  rq_timezone :: string

record CreateBookingResponse =
  bookingId :: string
  confirmationMessage :: string

record router_env =
  bookingEnv :: booking_env
  isDatetime :: "string \<Rightarrow> bool"
  isValidTimezone :: "string \<Rightarrow> bool"
  parseDateTime :: "string \<Rightarrow> int option"

definition createBookingRequestSchema :: "router_env \<Rightarrow> CreateBookingRequest \<Rightarrow> bool" where
  "createBookingRequestSchema env rq \<longleftrightarrow>
     1 \<le> length (rq_username rq) \<and>
     isDatetime env (rq_startTime rq) \<and> isDatetime env (rq_endTime rq) \<and>
     1 \<le> length (rq_attendeeName rq) \<and> length (rq_attendeeName rq) \<le> 100 \<and>
     isEmail (bookingEnv env) (rq_attendeeEmail rq) \<and>
     (case rq_notes rq of None \<Rightarrow> True | Some n \<Rightarrow> length n \<le> 500)"

definition toResponse :: "User \<Rightarrow> BookingResult \<Rightarrow> CreateBookingResponse" where
  "toResponse user booking =
     \<lparr> bookingId = r_uid booking,
       confirmationMessage =
         ''Your booking request has been submitted. You will receive a confirmation email once ''
         @ (if truthy (u_name user) then the (u_name user) else ''the admin'')
         @ '' approves your booking.'' \<rparr>"

definition createBooking ::
  "router_env \<Rightarrow> User list \<Rightarrow> CreateBookingRequest \<Rightarrow> db
     \<Rightarrow> (error + CreateBookingResponse) \<times> db" where
  "createBooking env users rq d =
     (if \<not> createBookingRequestSchema env rq then (Inl ZodError, d)
      else case find (\<lambda>u. u_username u = rq_username rq) users of
        None \<Rightarrow> (Inl (NOT_FOUND ''Admin user not found''), d)
      | Some user \<Rightarrow>
          if \<not> isValidTimezone env (rq_timezone rq)
          then (Inl (BAD_REQUEST ''Invalid timezone''), d)
          else
            (case (parseDateTime env (rq_startTime rq), parseDateTime env (rq_endTime rq)) of
               (Some startTime, Some endTime) \<Rightarrow>
                 (case createPendingBooking (bookingEnv env)
                         \<lparr> in_userId = u_id user, in_startTime = startTime,
                           in_endTime = endTime, in_attendeeName = rq_attendeeName rq,
                           in_attendeeEmail = rq_attendeeEmail rq, in_notes = rq_notes rq,
                           in_videoProvider = rq_videoProvider rq,
                           in_timezone = rq_timezone rq, in_title = None \<rparr> d of
                    (Inl e, d') \<Rightarrow> (Inl e, d')
                  | (Inr booking, d') \<Rightarrow> (Inr (toResponse user booking), d'))
             | _ \<Rightarrow> (Inl (BAD_REQUEST ''Invalid datetime format''), d)))"

section \<open>MinimalAvailabilityService.calculateAvailableSlots\<close>

record TimeSlot =
  ts_startTime :: int
  ts_endTime :: int
  ts_displayStartTime :: string
  ts_displayEndTime :: string

record CalculateAvailableSlotsInput =
  cs_userId :: int
  cs_startDate :: int
  cs_endDate :: int
  cs_userTimezone :: string
  cs_slotDurationMinutes :: "int option"

text \<open>
  The calendar arithmetic of the JavaScript runtime and of date-fns-tz is not part of the
  repository; the service is modelled over it. \<open>getDay\<close>, \<open>getHours\<close>, \<open>getMinutes\<close>
  read a \<open>Date\<close> in the process-local zone, \<open>setHours d h m\<close> is
  \<open>d.setHours(h, m, 0, 0)\<close>, \<open>setDateNext d\<close> is \<open>d.setDate(d.getDate() + 1)\<close>.
\<close>

record date_env =
  getDay :: "int \<Rightarrow> int"
  getHours :: "int \<Rightarrow> int"
  getMinutes :: "int \<Rightarrow> int"
  setHours :: "int \<Rightarrow> int \<Rightarrow> int \<Rightarrow> int"
  setDateNext :: "int \<Rightarrow> int"
  fromZonedTime :: "int \<Rightarrow> string \<Rightarrow> int"
  formatInTimeZone :: "int \<Rightarrow> string \<Rightarrow> string"

definition slotsOverlap :: "int \<times> int \<Rightarrow> int \<times> int \<Rightarrow> bool" where
  "slotsOverlap slot1 slot2 \<longleftrightarrow> fst slot1 < snd slot2 \<and> snd slot1 > fst slot2"

definition convertToUTC :: "date_env \<Rightarrow> int \<Rightarrow> string \<Rightarrow> int" where
  "convertToUTC env date timezone = fromZonedTime env date timezone"

definition mkSlot :: "date_env \<Rightarrow> string \<Rightarrow> int \<Rightarrow> int \<Rightarrow> TimeSlot" where
  "mkSlot env userTimezone slotStart slotEnd =
     \<lparr> ts_startTime = slotStart,
       ts_endTime = slotEnd,
       ts_displayStartTime = formatInTimeZone env slotStart userTimezone,
       ts_displayEndTime = formatInTimeZone env slotEnd userTimezone \<rparr>"

text \<open>
  The inner \<open>while\<close> of \<open>generateSlotsFromBlock\<close>. It does not end when the slot
  duration is zero or negative and one slot fits; not returning is the value \<open>None\<close>.
\<close>

partial_function (option) slotLoop ::
  "date_env \<Rightarrow> string \<Rightarrow> int \<Rightarrow> int \<Rightarrow> int \<Rightarrow> TimeSlot list \<Rightarrow> TimeSlot list option" where
  "slotLoop env userTimezone slotDurationMs maxEnd slotStart slots =
     (if slotStart + slotDurationMs \<le> maxEnd
      then slotLoop env userTimezone slotDurationMs maxEnd (slotStart + slotDurationMs)
             (slots @ [mkSlot env userTimezone slotStart (slotStart + slotDurationMs)])
      else Some slots)"

definition daySlots ::
  "date_env \<Rightarrow> AvailabilityBlock \<Rightarrow> int \<Rightarrow> int \<Rightarrow> string \<Rightarrow> int \<Rightarrow> int \<Rightarrow> TimeSlot list
     \<Rightarrow> TimeSlot list option" where
  "daySlots env block startDate endDate userTimezone slotDurationMs currentDate slots =
     (let blockStartHours = getHours env (ab_startTime block);
          blockStartMinutes = getMinutes env (ab_startTime block);
          blockEndHours = getHours env (ab_endTime block);
          blockEndMinutes = getMinutes env (ab_endTime block);
          dayStart = setHours env currentDate blockStartHours blockStartMinutes;
          dayEnd = setHours env currentDate blockEndHours blockEndMinutes;
          dayStartUTC = convertToUTC env dayStart (ab_timezone block);
          dayEndUTC = convertToUTC env dayEnd (ab_timezone block);
          slotStart = max dayStartUTC startDate;
          maxEnd = min dayEndUTC endDate
      in slotLoop env userTimezone slotDurationMs maxEnd slotStart slots)"

text \<open>The outer \<open>while (currentDate <= endDate)\<close>, one local day per round.\<close>

partial_function (option) dayLoop ::
  "date_env \<Rightarrow> AvailabilityBlock \<Rightarrow> int \<Rightarrow> int \<Rightarrow> string \<Rightarrow> int \<Rightarrow> int \<Rightarrow> TimeSlot list
     \<Rightarrow> TimeSlot list option" where
  "dayLoop env block startDate endDate userTimezone slotDurationMs currentDate slots =
     (if currentDate \<le> endDate
      then Option.bind
             (if getDay env currentDate = ab_dayOfWeek block
              then daySlots env block startDate endDate userTimezone slotDurationMs currentDate slots
              else Some slots)
             (\<lambda>slots'. dayLoop env block startDate endDate userTimezone slotDurationMs
                          (setHours env (setDateNext env currentDate) 0 0) slots')
      else Some slots)"

definition generateSlotsFromBlock ::
  "date_env \<Rightarrow> AvailabilityBlock \<Rightarrow> int \<Rightarrow> int \<Rightarrow> string \<Rightarrow> int \<Rightarrow> TimeSlot list option" where
  "generateSlotsFromBlock env block startDate endDate userTimezone slotDurationMinutes =
     dayLoop env block startDate endDate userTimezone (slotDurationMinutes * 60 * 1000)
       startDate []"

definition getCalendarEvents :: "db \<Rightarrow> int \<Rightarrow> int \<Rightarrow> int \<Rightarrow> (int \<times> int) list" where
  "getCalendarEvents d userId startDate endDate =
     (case find (\<lambda>i. ci_userId i = userId \<and> ci_type i = ''google-calendar'' \<and>
                       ci_syncStatus i = ''active'') (calendarIntegrations d) of
        None \<Rightarrow> []
      | Some integration \<Rightarrow>
          map (\<lambda>e. (ev_startTime e, ev_endTime e))
            (filter (\<lambda>e. ev_calendarIntegrationId e = ci_id integration \<and> ev_isBusy e \<and>
                          ev_startTime e \<le> endDate \<and> ev_endTime e \<ge> startDate)
               (calendarEvents d)))"

definition rangeBookings :: "db \<Rightarrow> int \<Rightarrow> int \<Rightarrow> int \<Rightarrow> Booking list" where
  "rangeBookings d userId startDate endDate =
     filter (\<lambda>b. b_userId b = userId \<and> (b_status b = PENDING \<or> b_status b = CONFIRMED) \<and>
                  b_startTime b \<le> endDate \<and> b_endTime b \<ge> startDate)
       (bookings d)"

text \<open>The \<open>for\<close> loop that appends the slots of every block to \<open>allSlots\<close>.\<close>

fun collectSlots ::
  "date_env \<Rightarrow> int \<Rightarrow> int \<Rightarrow> string \<Rightarrow> int \<Rightarrow> AvailabilityBlock list \<Rightarrow> TimeSlot list
     \<Rightarrow> TimeSlot list option" where
  "collectSlots env startDate endDate userTimezone slotDurationMinutes [] allSlots = Some allSlots"
| "collectSlots env startDate endDate userTimezone slotDurationMinutes (block # rest) allSlots =
     Option.bind
       (generateSlotsFromBlock env block startDate endDate userTimezone slotDurationMinutes)
       (\<lambda>slots. collectSlots env startDate endDate userTimezone slotDurationMinutes rest
                   (allSlots @ slots))"

definition slotIsFree :: "(int \<times> int) list \<Rightarrow> Booking list \<Rightarrow> TimeSlot \<Rightarrow> bool" where
  "slotIsFree calendarEvents' bookings' slot =
     (let conflictsWithCalendar =
            list_ex (\<lambda>event. slotsOverlap (ts_startTime slot, ts_endTime slot) event)
              calendarEvents'
      in if conflictsWithCalendar then False
         else \<not> list_ex (\<lambda>booking. slotsOverlap (ts_startTime slot, ts_endTime slot)
                                      (b_startTime booking, b_endTime booking)) bookings')"

definition calculateAvailableSlots ::
  "date_env \<Rightarrow> CalculateAvailableSlotsInput \<Rightarrow> db \<Rightarrow> TimeSlot list option" where
  "calculateAvailableSlots env input d =
     (let userId = cs_userId input;
          startDate = cs_startDate input;
          endDate = cs_endDate input;
          userTimezone = cs_userTimezone input;
          slotDurationMinutes = (case cs_slotDurationMinutes input of None \<Rightarrow> 30 | Some m \<Rightarrow> m);
          blocks = filter (\<lambda>b. ab_userId b = userId \<and> ab_isActive b) (availabilityBlocks d)
      in if length blocks = 0 then Some []
         else
           let calendarEvents' = getCalendarEvents d userId startDate endDate;
               bookings' = rangeBookings d userId startDate endDate
           in Option.bind
                (collectSlots env startDate endDate userTimezone slotDurationMinutes blocks [])
                (\<lambda>allSlots.
                   Some (sort_key ts_startTime
                           (filter (slotIsFree calendarEvents' bookings') allSlots))))"

text \<open>
  A runtime whose local zone is UTC and whose only zone is UTC, for running the service on
  concrete dates: day 0 of the epoch was a Thursday.
\<close>

definition utcEnv :: date_env where
  "utcEnv =
     \<lparr> getDay = (\<lambda>t. (t div 86400000 + 4) mod 7),
       getHours = (\<lambda>t. (t mod 86400000) div 3600000),
       getMinutes = (\<lambda>t. (t mod 3600000) div 60000),
       setHours = (\<lambda>t h m. (t div 86400000) * 86400000 + h * 3600000 + m * 60000),
       setDateNext = (\<lambda>t. t + 86400000),
       fromZonedTime = (\<lambda>t tz. t),
       formatInTimeZone = (\<lambda>t tz. []) \<rparr>"

section \<open>CalendarSyncService\<close>

record GoogleCalendarEvent =
  g_id :: string
  g_start_dateTime :: "string option"
  g_end_dateTime :: "string option"
  g_summary :: "string option"

record ListOptions =
  lo_syncToken :: "string option"
  lo_timeMin :: "int option"
  lo_timeMax :: "int option"

record SyncEventsResult =
  events :: "GoogleCalendarEvent list"
  nextSyncToken :: "string option"
  hasMore :: bool

record SyncResult =
  eventsSynced :: nat
  sr_nextSyncToken :: "string option"
  sr_lastSyncAt :: int
  hasError :: bool
  errorMessage :: "string option"

text \<open>
  What a sync reads from outside the store. \<open>listEvents\<close> is the calendar client's call to
  the provider: it throws (the error's message) or returns the events and the next token.
  \<open>subDays\<close> is date-fns's, \<open>parseDate\<close> is \<open>new Date(string).getTime()\<close>. Every
  awaited store operation can reject; the four fault fields say which ones do in this run
  and with which message: the \<open>findUnique\<close>, the \<open>upsert\<close> of a given external event
  id, the \<open>update\<close> that records success, and the \<open>update\<close> of the \<open>catch\<close> block.
\<close>

record sync_env =
  s_now :: int
  subDays :: "int \<Rightarrow> int \<Rightarrow> int"
  parseDate :: "string \<Rightarrow> int"
  listEvents :: "string \<Rightarrow> ListOptions \<Rightarrow> string + SyncEventsResult"
  findUniqueFault :: "string option"
  upsertFault :: "string \<Rightarrow> string option"
  updateFault :: "string option"
  errorUpdateFault :: "string option"

definition findIntegration :: "db \<Rightarrow> string \<Rightarrow> CalendarIntegration option" where
  "findIntegration d integrationId = find (\<lambda>i. ci_id i = integrationId) (calendarIntegrations d)"

definition updateIntegration ::
  "string \<Rightarrow> (CalendarIntegration \<Rightarrow> CalendarIntegration) \<Rightarrow> db \<Rightarrow> db" where
  "updateIntegration integrationId f d =
     d\<lparr> calendarIntegrations :=
          map (\<lambda>i. if ci_id i = integrationId then f i else i) (calendarIntegrations d) \<rparr>"

definition sameEvent :: "string \<Rightarrow> string \<Rightarrow> CalendarEvent \<Rightarrow> bool" where
  "sameEvent integrationId externalEventId e \<longleftrightarrow>
     ev_calendarIntegrationId e = integrationId \<and> ev_externalEventId e = externalEventId"

text \<open>
  \<open>calendarEvent.upsert\<close> on the unique key (integration id, external event id): the
  \<open>update\<close> branch leaves \<open>isBusy\<close> as it is, the \<open>create\<close> branch sets it.
\<close>

definition upsertEvent ::
  "int \<Rightarrow> string \<Rightarrow> string \<Rightarrow> int \<Rightarrow> int \<Rightarrow> string \<Rightarrow> CalendarEvent list \<Rightarrow> CalendarEvent list" where
  "upsertEvent syncedAt integrationId externalEventId startTime endTime title evs =
     (if list_ex (sameEvent integrationId externalEventId) evs
      then map (\<lambda>e. if sameEvent integrationId externalEventId e
                     then e\<lparr> ev_startTime := startTime, ev_endTime := endTime,
                             ev_title := title, ev_syncedAt := syncedAt \<rparr>
                     else e) evs
      else evs @ [\<lparr> ev_calendarIntegrationId = integrationId,
                     ev_externalEventId = externalEventId,
                     ev_startTime = startTime, ev_endTime = endTime,
                     ev_title = title, ev_isBusy = True, ev_syncedAt = syncedAt \<rparr>])"

text \<open>
  The loop of \<open>processSyncEvents\<close>. A rejected upsert throws out of the loop; the rows
  written before it stay written, as no transaction encloses them.
\<close>

fun processSyncEvents ::
  "sync_env \<Rightarrow> string \<Rightarrow> GoogleCalendarEvent list \<Rightarrow> nat \<Rightarrow> db \<Rightarrow> (string + nat) \<times> db" where
  "processSyncEvents env integrationId [] eventsProcessed d = (Inr eventsProcessed, d)"
| "processSyncEvents env integrationId (event # rest) eventsProcessed d =
     (if g_id event = [] \<or> \<not> truthy (g_start_dateTime event)
      then processSyncEvents env integrationId rest eventsProcessed d
      else
        let startTime = parseDate env (the (g_start_dateTime event));
            endTime = (if truthy (g_end_dateTime event)
                       then parseDate env (the (g_end_dateTime event)) else startTime);
            title = (if truthy (g_summary event) then the (g_summary event)
                     else ''Untitled Event'')
        in case upsertFault env (g_id event) of
             Some msg \<Rightarrow> (Inl msg, d)
           | None \<Rightarrow>
               processSyncEvents env integrationId rest (Suc eventsProcessed)
                 (d\<lparr> calendarEvents :=
                       upsertEvent (s_now env) integrationId (g_id event) startTime endTime title
                         (calendarEvents d) \<rparr>))"

text \<open>
  The \<open>catch\<close> block of both syncs: record the error on the integration and return an
  error result. Its own \<open>update\<close> throws when it is rejected or when the row is missing;
  then the call itself throws (\<open>Inl\<close>).
\<close>

definition syncFailed :: "sync_env \<Rightarrow> string \<Rightarrow> string \<Rightarrow> db \<Rightarrow> (string + SyncResult) \<times> db" where
  "syncFailed env integrationId errorMessage' d =
     (case errorUpdateFault env of
        Some msg \<Rightarrow> (Inl msg, d)
      | None \<Rightarrow>
          (case findIntegration d integrationId of
             None \<Rightarrow> (Inl ''Record to update not found'', d)
           | Some i \<Rightarrow>
               (Inr \<lparr> eventsSynced = 0, sr_nextSyncToken = None, sr_lastSyncAt = s_now env,
                      hasError = True, errorMessage = Some errorMessage' \<rparr>,
                updateIntegration integrationId
                  (\<lambda>i. i\<lparr> ci_syncStatus := ''error'', ci_syncError := Some errorMessage' \<rparr>) d)))"

text \<open>
  The \<open>update\<close> after a successful run. A field given as \<open>undefined\<close> is not written, so
  a result without a next token leaves the stored token as it is.
\<close>

definition syncSucceeded ::
  "sync_env \<Rightarrow> string \<Rightarrow> SyncEventsResult \<Rightarrow> nat \<Rightarrow> db \<Rightarrow> (string + SyncResult) \<times> db" where
  "syncSucceeded env integrationId result eventsSynced' d =
     (case updateFault env of
        Some msg \<Rightarrow> syncFailed env integrationId msg d
      | None \<Rightarrow>
          (Inr \<lparr> eventsSynced = eventsSynced', sr_nextSyncToken = nextSyncToken result,
                 sr_lastSyncAt = s_now env, hasError = False, errorMessage = None \<rparr>,
           updateIntegration integrationId
             (\<lambda>i. i\<lparr> ci_syncToken := (case nextSyncToken result of
                                         None \<Rightarrow> ci_syncToken i | Some t \<Rightarrow> Some t),
                      ci_lastSyncAt := Some (s_now env),
                      ci_syncStatus := ''active'',
                      ci_syncError := None \<rparr>) d))"

definition syncWith ::
  "sync_env \<Rightarrow> string \<Rightarrow> CalendarIntegration \<Rightarrow> ListOptions \<Rightarrow> db \<Rightarrow> (string + SyncResult) \<times> db" where
  "syncWith env integrationId integration options d =
     (case listEvents env (ci_calendarId integration) options of
        Inl msg \<Rightarrow> syncFailed env integrationId msg d
      | Inr result \<Rightarrow>
          (case processSyncEvents env integrationId (events result) 0 d of
             (Inl msg, d') \<Rightarrow> syncFailed env integrationId msg d'
           | (Inr eventsSynced', d') \<Rightarrow> syncSucceeded env integrationId result eventsSynced' d'))"

definition fullWindow :: "sync_env \<Rightarrow> ListOptions" where
  "fullWindow env =
     \<lparr> lo_syncToken = None,
       lo_timeMin = Some (subDays env (s_now env) 90),
       lo_timeMax = Some (s_now env + 90 * 24 * 60 * 60 * 1000) \<rparr>"

definition performFullSync :: "sync_env \<Rightarrow> string \<Rightarrow> db \<Rightarrow> (string + SyncResult) \<times> db" where
  "performFullSync env integrationId d =
     (case findUniqueFault env of
        Some msg \<Rightarrow> syncFailed env integrationId msg d
      | None \<Rightarrow>
          (case findIntegration d integrationId of
             None \<Rightarrow>
               syncFailed env integrationId (''Calendar integration not found: '' @ integrationId) d
           | Some integration \<Rightarrow> syncWith env integrationId integration (fullWindow env) d))"

definition performIncrementalSync :: "sync_env \<Rightarrow> string \<Rightarrow> db \<Rightarrow> (string + SyncResult) \<times> db" where
  "performIncrementalSync env integrationId d =
     (case findUniqueFault env of
        Some msg \<Rightarrow> syncFailed env integrationId msg d
      | None \<Rightarrow>
          (case findIntegration d integrationId of
             None \<Rightarrow>
               syncFailed env integrationId (''Calendar integration not found: '' @ integrationId) d
           | Some integration \<Rightarrow>
               if \<not> truthy (ci_syncToken integration)
               then performFullSync env integrationId d
               else syncWith env integrationId integration
                      \<lparr> lo_syncToken = ci_syncToken integration,
                        lo_timeMin = None, lo_timeMax = None \<rparr> d))"

definition cleanupWhere :: "string option \<Rightarrow> int \<Rightarrow> CalendarEvent \<Rightarrow> bool" where
  "cleanupWhere integrationId cutoffDate e \<longleftrightarrow>
     (if truthy integrationId
      then ev_calendarIntegrationId e = the integrationId \<and> ev_startTime e < cutoffDate
      else ev_startTime e < cutoffDate)"

definition cleanupOldEvents :: "sync_env \<Rightarrow> string option \<Rightarrow> db \<Rightarrow> nat \<times> db" where
  "cleanupOldEvents env integrationId d =
     (let cutoffDate = subDays env (s_now env) 90
      in (length (filter (cleanupWhere integrationId cutoffDate) (calendarEvents d)),
          d\<lparr> calendarEvents :=
               filter (\<lambda>e. \<not> cleanupWhere integrationId cutoffDate e) (calendarEvents d) \<rparr>))"

section \<open>CalendarAuthService\<close>

record Credentials =
  cr_access_token :: "string option"
  cr_refresh_token :: "string option"
  cr_expiry_date :: "int option"
  cr_token_type :: "string option"
  cr_scope :: "string option"

record OAuthTokens =
  access_token :: string
  refresh_token :: "string option"
  expiry_date :: "int option"
  token_type :: "string option"
  scope :: "string option"

text \<open>
  What the vault reads from outside the store: the clock, the application keys, the
  provider's token endpoint (its answer to a refresh request that presents the given
  refresh credential), the two crypto helpers under the process key, and
  \<open>JSON.stringify\<close>.
\<close>

record auth_env =
  a_now :: int
  getGoogleAppKeys :: "string + string \<times> string"
  tokenEndpoint :: "string \<Rightarrow> string + Credentials"
  symmetricEncrypt :: "string \<Rightarrow> string"
  symmetricDecrypt :: "string \<Rightarrow> string + string"
  JSON_stringify :: "OAuthTokens \<Rightarrow> string"

text \<open>
  \<open>OAuth2Client.refreshAccessToken\<close> of the OAuth library, on a client whose credentials
  hold the given refresh credential: the library sends the client's own refresh credential
  to the token endpoint and returns the answer with that refresh credential put in, and
  throws \<open>No refresh token is set.\<close> when the client has none. A client gets its
  credentials from \<open>setCredentials\<close>, as \<open>getOAuthClient\<close> of this service does.
\<close>

definition refreshAccessToken :: "auth_env \<Rightarrow> string option \<Rightarrow> string + Credentials" where
  "refreshAccessToken env clientRefreshToken =
     (if \<not> truthy clientRefreshToken then Inl ''No refresh token is set.''
      else (case tokenEndpoint env (the clientRefreshToken) of
              Inl msg \<Rightarrow> Inl msg
            | Inr tokens \<Rightarrow> Inr (tokens\<lparr> cr_refresh_token := clientRefreshToken \<rparr>)))"

text \<open>
  \<open>refreshTokens\<close> decrypts the stored refresh credential, builds a fresh client from the
  application keys and calls \<open>refreshAccessToken\<close> on it without \<open>setCredentials\<close>:
  the client's refresh credential is \<open>None\<close>, and the decrypted one is only used as the
  fallback in the stored token object. The expiry of the answer counts when it is a
  non-zero number.
\<close>

definition refreshTokens :: "auth_env \<Rightarrow> string \<Rightarrow> db \<Rightarrow> (string + unit) \<times> db" where
  "refreshTokens env integrationId d =
     (case findIntegration d integrationId of
        None \<Rightarrow> (Inl (''Calendar integration not found: '' @ integrationId), d)
      | Some integration \<Rightarrow>
          if \<not> truthy (ci_refreshToken integration)
          then (Inl ''No refresh token available'', d)
          else
            (case symmetricDecrypt env (the (ci_refreshToken integration)) of
               Inl msg \<Rightarrow> (Inl msg, d)
             | Inr refreshToken \<Rightarrow>
                 (case getGoogleAppKeys env of
                    Inl msg \<Rightarrow> (Inl msg, d)
                  | Inr keys \<Rightarrow>
                      (case refreshAccessToken env None of
                         Inl msg \<Rightarrow> (Inl msg, d)
                       | Inr newTokens \<Rightarrow>
                           if \<not> truthy (cr_access_token newTokens)
                           then (Inl ''No access token received from refresh'', d)
                           else
                             let encryptedAccessToken =
                                   symmetricEncrypt env (JSON_stringify env
                                     \<lparr> access_token = the (cr_access_token newTokens),
                                       refresh_token =
                                         (if truthy (cr_refresh_token newTokens)
                                          then cr_refresh_token newTokens
                                          else Some refreshToken),
                                       expiry_date = cr_expiry_date newTokens,
                                       token_type = cr_token_type newTokens,
                                       scope = cr_scope newTokens \<rparr>);
                                 encryptedRefreshToken =
                                   (if truthy (cr_refresh_token newTokens)
                                    then Some (symmetricEncrypt env
                                                 (the (cr_refresh_token newTokens)))
                                    else ci_refreshToken integration);
                                 tokenExpiresAt =
                                   (case cr_expiry_date newTokens of
                                      None \<Rightarrow> a_now env + 3600 * 1000
                                    | Some e \<Rightarrow>
                                        if e \<noteq> 0 then e else a_now env + 3600 * 1000)
                             in (Inr (),
                                 updateIntegration integrationId
                                   (\<lambda>i. i\<lparr> ci_accessToken := encryptedAccessToken,
                                            ci_refreshToken := encryptedRefreshToken,
                                            ci_tokenExpiresAt := Some tokenExpiresAt \<rparr>) d)))))"

definition fiveMinutes :: int where
  "fiveMinutes = 5 * 60 * 1000"

definition ensureValidToken :: "auth_env \<Rightarrow> string \<Rightarrow> db \<Rightarrow> (string + unit) \<times> db" where
  "ensureValidToken env integrationId d =
     (case findIntegration d integrationId of
        None \<Rightarrow> (Inl (''Calendar integration not found: '' @ integrationId), d)
      | Some integration \<Rightarrow>
          (case ci_tokenExpiresAt integration of
             None \<Rightarrow> (Inr (), d)
           | Some expiresAt \<Rightarrow>
               if expiresAt - a_now env < fiveMinutes
               then refreshTokens env integrationId d
               else (Inr (), d)))"

section \<open>Properties and concrete runs\<close>

text \<open>
  The predicates in which the properties of the services are stated, and the concrete
  environments, stores and requests on which they are run.
\<close>

subsection \<open>MinimalBookingService: predicates and runs\<close>

text \<open>The statuses that hold a time: pending and confirmed.\<close>

definition activeStatus :: "Booking \<Rightarrow> bool" where
  "activeStatus b \<longleftrightarrow> b_status b = PENDING \<or> b_status b = CONFIRMED"

text \<open>
  A booking stands in the way of a request: same admin, pending or confirmed, and the two
  intervals overlap half-open.
\<close>

definition overlapsRequest :: "CreatePendingBookingInput \<Rightarrow> Booking \<Rightarrow> bool" where
  "overlapsRequest v b \<longleftrightarrow>
     b_userId b = in_userId v \<and> activeStatus b \<and>
     halfOpenOverlap (in_startTime v) (in_endTime v) (b_startTime b) (b_endTime b)"

text \<open>The call throws a validation error and leaves the store as it was.\<close>

definition rejectedAsInvalid :: "booking_env \<Rightarrow> CreatePendingBookingInput \<Rightarrow> db \<Rightarrow> bool" where
  "rejectedAsInvalid env v d \<longleftrightarrow>
     (case createPendingBooking env v d of
        (Inl e, d') \<Rightarrow> isValidation e \<and> d' = d
      | (Inr r, d') \<Rightarrow> False)"

text \<open>The call returns a pending booking and has appended its row to the bookings.\<close>

definition insertedPending :: "booking_env \<Rightarrow> CreatePendingBookingInput \<Rightarrow> db \<Rightarrow> bool" where
  "insertedPending env v d \<longleftrightarrow>
     (case createPendingBooking env v d of
        (Inl e, d') \<Rightarrow> False
      | (Inr r, d') \<Rightarrow>
          r_status r = PENDING \<and>
          bookings d' = bookings d @ [newBooking env v (nextBookingId d)] \<and>
          b_status (newBooking env v (nextBookingId d)) = PENDING)"

text \<open>
  A clock at the epoch, and requests of admin 1 given by their start and end. 10:00 of the
  first day is 36000000, 10:15 is 36900000, 10:30 is 37800000, 10:45 is 38700000.
\<close>

definition demoEnv :: booking_env where
  "demoEnv = \<lparr> now = 0, isEmail = (\<lambda>s. CHR ''@'' \<in> set s), newUid = ''booking-0-abc'' \<rparr>"

definition request :: "int \<Rightarrow> int \<Rightarrow> CreatePendingBookingInput" where
  "request s e =
     \<lparr> in_userId = 1, in_startTime = s, in_endTime = e, in_attendeeName = ''Ann'',
       in_attendeeEmail = ''ann@example.org'', in_notes = None, in_videoProvider = None,
       in_timezone = ''UTC'', in_title = None \<rparr>"

definition confirmed1015 :: Booking where
  "confirmed1015 =
     \<lparr> b_id = 0, b_uid = ''booking-x'', b_userId = 1,
       b_startTime = 36900000, b_endTime = 38700000,
       b_title = ''Meeting with Bob'', b_description = None, b_status = CONFIRMED,
       b_attendeeName = Some ''Bob'', b_attendeeEmail = Some ''bob@example.org'',
       b_videoProvider = None, b_videoLink = None, b_calendarEventId = None,
       b_timezone = Some ''UTC'' \<rparr>"

definition emptyDb :: db where
  "emptyDb = \<lparr> bookings = [], nextBookingId = 0, availabilityBlocks = [],
               calendarIntegrations = [], calendarEvents = [] \<rparr>"

definition busy1000 :: CalendarEvent where
  "busy1000 =
     \<lparr> ev_calendarIntegrationId = ''int-1'', ev_externalEventId = ''evt-1'',
       ev_startTime = 36000000, ev_endTime = 37800000, ev_title = ''Dentist'',
       ev_isBusy = True, ev_syncedAt = 0 \<rparr>"

subsection \<open>CalendarSyncService: predicates and runs\<close>

text \<open>The unique key of a cached event.\<close>

definition evKey :: "CalendarEvent \<Rightarrow> string \<times> string" where
  "evKey e = (ev_calendarIntegrationId e, ev_externalEventId e)"

text \<open>
  Every row cached in \<open>d\<close> is still a row of \<open>d'\<close>, under the same key and at the
  same place: rows were updated in place or appended, none was removed.
\<close>

definition keysKept :: "db \<Rightarrow> db \<Rightarrow> bool" where
  "keysKept d d' \<longleftrightarrow> prefix (map evKey (calendarEvents d)) (map evKey (calendarEvents d'))"

definition dayMs :: int where
  "dayMs = 24 * 60 * 60 * 1000"

text \<open>Date parsing on the three date-times of the runs.\<close>

definition demoParse :: "string \<Rightarrow> int" where
  "demoParse s =
     (if s = ''1970-01-01T10:00:00Z'' then 36000000
      else if s = ''1970-01-01T10:30:00Z'' then 37800000
      else if s = ''1970-01-01T11:00:00Z'' then 39600000
      else 0)"

definition meeting :: "string \<Rightarrow> string \<Rightarrow> string \<Rightarrow> GoogleCalendarEvent" where
  "meeting i s e = \<lparr> g_id = i, g_start_dateTime = Some s, g_end_dateTime = Some e,
                     g_summary = Some ''Meeting'' \<rparr>"

definition twoEvents :: SyncEventsResult where
  "twoEvents =
     \<lparr> events = [meeting ''evt-1'' ''1970-01-01T10:00:00Z'' ''1970-01-01T10:30:00Z'',
                 meeting ''evt-2'' ''1970-01-01T10:30:00Z'' ''1970-01-01T11:00:00Z''],
       nextSyncToken = Some ''token-2'', hasMore = False \<rparr>"

text \<open>A provider that answers every request with the two events and a new token.\<close>

definition goodProvider :: sync_env where
  "goodProvider =
     \<lparr> s_now = 1000, subDays = (\<lambda>t n. t - n * dayMs), parseDate = demoParse,
       listEvents = (\<lambda>calendarId options. Inr twoEvents),
       findUniqueFault = None, upsertFault = (\<lambda>externalEventId. None),
       updateFault = None, errorUpdateFault = None \<rparr>"


text \<open>A provider that rejects every continuation token and answers a window request.\<close>

definition tokenRejected :: sync_env where
  "tokenRejected =
     goodProvider\<lparr> listEvents :=
       (\<lambda>calendarId options.
          if truthy (lo_syncToken options) then Inl ''Sync token is no longer valid''
          else Inr twoEvents) \<rparr>"

text \<open>A store with one connected integration, its continuation token given.\<close>

definition connected :: "string option \<Rightarrow> CalendarIntegration" where
  "connected token =
     \<lparr> ci_id = ''int-1'', ci_userId = 1, ci_type = ''google-calendar'',
       ci_accessToken = ''enc-access'', ci_refreshToken = Some ''enc-refresh'',
       ci_tokenExpiresAt = Some 3600000, ci_calendarId = ''primary'',
       ci_syncToken = token, ci_lastSyncAt = Some 0, ci_syncStatus = ''active'',
       ci_syncError = None \<rparr>"

definition syncDb :: "string option \<Rightarrow> db" where
  "syncDb token = \<lparr> bookings = [], nextBookingId = 0, availabilityBlocks = [],
                    calendarIntegrations = [connected token], calendarEvents = [] \<rparr>"

text \<open>
  What a sync leaves behind, by its outcome \<open>out\<close> on the store \<open>d\<close>. A call that
  throws has not touched the integrations. A call that returns a result has recorded it on
  the integration: an error result as status error with the message, the token and the
  last-sync time as before; a success result as status active, no error, and the clock
  reading as last-sync time. In every case the cached keys are kept.
\<close>

definition syncPost :: "sync_env \<Rightarrow> string \<Rightarrow> db \<Rightarrow> (string + SyncResult) \<times> db \<Rightarrow> bool" where
  "syncPost env integrationId d out \<longleftrightarrow>
     (case out of
        (Inl msg, d') \<Rightarrow> calendarIntegrations d' = calendarIntegrations d \<and> keysKept d d'
      | (Inr result, d') \<Rightarrow>
          keysKept d d' \<and>
          (case (findIntegration d integrationId, findIntegration d' integrationId) of
             (Some i, Some i') \<Rightarrow>
               if hasError result
               then ci_syncStatus i' = ''error'' \<and> ci_syncError i' = errorMessage result \<and>
                    errorMessage result \<noteq> None \<and>
                    ci_syncToken i' = ci_syncToken i \<and> ci_lastSyncAt i' = ci_lastSyncAt i
               else ci_syncStatus i' = ''active'' \<and> ci_syncError i' = None \<and>
                    ci_lastSyncAt i' = Some (s_now env)
           | _ \<Rightarrow> False))"

text \<open>A provider whose every call fails.\<close>

definition providerDown :: sync_env where
  "providerDown =
     goodProvider\<lparr> listEvents := (\<lambda>calendarId options. Inl ''Service unavailable'') \<rparr>"

definition cancelled :: "string \<Rightarrow> GoogleCalendarEvent" where
  "cancelled i = \<lparr> g_id = i, g_start_dateTime = None, g_end_dateTime = None,
                   g_summary = None \<rparr>"

text \<open>A provider whose answer reports event \<open>evt-1\<close> as cancelled: an id and no times.\<close>

definition reportsCancelled :: sync_env where
  "reportsCancelled =
     goodProvider\<lparr> listEvents := (\<lambda>calendarId options.
       Inr \<lparr> events = [cancelled ''evt-1''], nextSyncToken = Some ''token-3'',
             hasMore = False \<rparr>) \<rparr>"

text \<open>The cached row of event \<open>evt-1\<close>, 10:00 to 10:30 of the first day.\<close>

definition cachedRow :: CalendarEvent where
  "cachedRow =
     \<lparr> ev_calendarIntegrationId = ''int-1'', ev_externalEventId = ''evt-1'',
       ev_startTime = 36000000, ev_endTime = 37800000, ev_title = ''Meeting'',
       ev_isBusy = True, ev_syncedAt = 1000 \<rparr>"

text \<open>What the provider's answers say about a cached row: no event with its id has a start.\<close>

definition unmentioned :: "CalendarEvent \<Rightarrow> GoogleCalendarEvent list \<Rightarrow> bool" where
  "unmentioned e evs \<longleftrightarrow>
     list_all (\<lambda>g. g_id g \<noteq> ev_externalEventId e \<or> g_id g = [] \<or>
                    \<not> truthy (g_start_dateTime g)) evs"

text \<open>The same provider, 91 days after the start of the cached row.\<close>

definition laterClock :: sync_env where
  "laterClock = goodProvider\<lparr> s_now := 36000000 + 91 * dayMs \<rparr>"









subsection \<open>CalendarAuthService: predicates and runs\<close>

text \<open>
  A provider whose token endpoint answers every refresh request with a new access
  credential, no refresh credential and an expiry one hour ahead; encryption that
  prefixes, for reading the runs.
\<close>

definition demoAnswer :: Credentials where
  "demoAnswer =
     \<lparr> cr_access_token = Some ''access-2'', cr_refresh_token = None,
       cr_expiry_date = Some 3601000, cr_token_type = Some ''Bearer'', cr_scope = None \<rparr>"

definition demoAuth :: auth_env where
  "demoAuth =
     \<lparr> a_now = 1000,
       getGoogleAppKeys = Inr (''client-id'', ''client-secret''),
       tokenEndpoint = (\<lambda>presentedRefreshToken. Inr demoAnswer),
       symmetricEncrypt = (\<lambda>s. ''enc:'' @ s),
       symmetricDecrypt = (\<lambda>s. Inr (drop 4 s)),
       JSON_stringify = (\<lambda>t. access_token t @ '','' @ the (refresh_token t)) \<rparr>"

text \<open>
  A store with one integration that holds a refresh credential and whose access credential
  expires at the given instant.
\<close>

definition expiring :: "int \<Rightarrow> CalendarIntegration" where
  "expiring expiresAt =
     \<lparr> ci_id = ''int-1'', ci_userId = 1, ci_type = ''google-calendar'',
       ci_accessToken = ''enc:access-1,refresh-1'', ci_refreshToken = Some ''enc:refresh-1'',
       ci_tokenExpiresAt = Some expiresAt, ci_calendarId = ''primary'',
       ci_syncToken = None, ci_lastSyncAt = None, ci_syncStatus = ''active'',
       ci_syncError = None \<rparr>"

definition authDb :: "int \<Rightarrow> db" where
  "authDb expiresAt = \<lparr> bookings = [], nextBookingId = 0, availabilityBlocks = [],
                        calendarIntegrations = [expiring expiresAt], calendarEvents = [] \<rparr>"

subsection \<open>MinimalAvailabilityService: predicates and runs\<close>

text \<open>
  Monday 5 January 1970 starts at 345600000. Admin 1 is available on Mondays from 09:00 to
  17:00 UTC; the cache of the admin's integration holds a busy event from 10:00 to 10:30
  that day; the status of the integration is given.
\<close>

definition mondayBlock :: AvailabilityBlock where
  "mondayBlock =
     \<lparr> ab_id = ''block-1'', ab_userId = 1, ab_dayOfWeek = 1,
       ab_startTime = 32400000, ab_endTime = 61200000,
       ab_timezone = ''UTC'', ab_isActive = True \<rparr>"

definition mondayBusy :: CalendarEvent where
  "mondayBusy =
     \<lparr> ev_calendarIntegrationId = ''int-1'', ev_externalEventId = ''evt-1'',
       ev_startTime = 381600000, ev_endTime = 383400000, ev_title = ''Dentist'',
       ev_isBusy = True, ev_syncedAt = 0 \<rparr>"

definition calendarOf :: "string \<Rightarrow> CalendarIntegration" where
  "calendarOf status =
     \<lparr> ci_id = ''int-1'', ci_userId = 1, ci_type = ''google-calendar'',
       ci_accessToken = ''enc-access'', ci_refreshToken = Some ''enc-refresh'',
       ci_tokenExpiresAt = Some 3600000, ci_calendarId = ''primary'',
       ci_syncToken = Some ''token-1'', ci_lastSyncAt = Some 0, ci_syncStatus = status,
       ci_syncError = (if status = ''error'' then Some ''Service unavailable'' else None) \<rparr>"

definition mondayDb :: "string \<Rightarrow> db" where
  "mondayDb status =
     \<lparr> bookings = [], nextBookingId = 0, availabilityBlocks = [mondayBlock],
       calendarIntegrations = [calendarOf status], calendarEvents = [mondayBusy] \<rparr>"

definition mondayRequest :: CalculateAvailableSlotsInput where
  "mondayRequest =
     \<lparr> cs_userId = 1, cs_startDate = 345600000, cs_endDate = 431999000,
       cs_userTimezone = ''UTC'', cs_slotDurationMinutes = None \<rparr>"

text \<open>The 30-minute slot that starts at the given instant, as the UTC runtime builds it.\<close>

definition slotAt :: "int \<Rightarrow> TimeSlot" where
  "slotAt s = mkSlot utcEnv ''UTC'' s (s + 30 * 60 * 1000)"

text \<open>A slot lies within the requested range.\<close>

definition inRange :: "int \<Rightarrow> int \<Rightarrow> TimeSlot \<Rightarrow> bool" where
  "inRange startDate endDate slot \<longleftrightarrow>
     startDate \<le> ts_startTime slot \<and> ts_endTime slot \<le> endDate"

text \<open>A slot overlaps no pending or confirmed booking of the admin.\<close>

definition clearOfBookings :: "db \<Rightarrow> int \<Rightarrow> TimeSlot \<Rightarrow> bool" where
  "clearOfBookings d userId slot \<longleftrightarrow>
     list_all (\<lambda>b. \<not> (b_userId b = userId \<and> (b_status b = PENDING \<or> b_status b = CONFIRMED) \<and>
                       slotsOverlap (ts_startTime slot, ts_endTime slot)
                         (b_startTime b, b_endTime b)))
       (bookings d)"

text \<open>
  A slot overlaps no busy cached event of the integration that \<open>getCalendarEvents\<close>
  finds: the admin's first google-calendar integration in status active, if there is one.
\<close>

definition clearOfActiveCalendar :: "db \<Rightarrow> int \<Rightarrow> TimeSlot \<Rightarrow> bool" where
  "clearOfActiveCalendar d userId slot \<longleftrightarrow>
     (case find (\<lambda>i. ci_userId i = userId \<and> ci_type i = ''google-calendar'' \<and>
                       ci_syncStatus i = ''active'') (calendarIntegrations d) of
        None \<Rightarrow> True
      | Some integration \<Rightarrow>
          list_all (\<lambda>e. \<not> (ev_calendarIntegrationId e = ci_id integration \<and> ev_isBusy e \<and>
                            slotsOverlap (ts_startTime slot, ts_endTime slot)
                              (ev_startTime e, ev_endTime e)))
            (calendarEvents d))"

section \<open>MinimalBookingService: theorems\<close>

lemma clauses_iff_halfOpenOverlap:
  assumes "in_startTime v < in_endTime v" and "b_startTime b < b_endTime b"
  shows "(startsDuring v b \<or> endsDuring v b \<or> containsExisting v b) \<longleftrightarrow>
         halfOpenOverlap (in_startTime v) (in_endTime v) (b_startTime b) (b_endTime b)"
  using assms
  unfolding startsDuring_def endsDuring_def containsExisting_def halfOpenOverlap_def
  by linarith

lemma overlappingWhere_iff:
  assumes "in_startTime v < in_endTime v" and "b_startTime b < b_endTime b"
  shows "overlappingWhere v b \<longleftrightarrow> overlapsRequest v b"
  using clauses_iff_halfOpenOverlap [OF assms]
  by (simp add: overlappingWhere_def overlapsRequest_def activeStatus_def)

lemma find_None_iff_all: "find P xs = None \<longleftrightarrow> (\<forall>x\<in>set xs. \<not> P x)"
  by (induction xs) auto

lemma bookingTransaction_conflict:
  "(\<exists>m. bookingTransaction env v d = (Inl (CONFLICT m), d)) \<longleftrightarrow>
   (\<exists>b\<in>set (bookings d). overlappingWhere v b)"
proof (cases "find (overlappingWhere v) (bookings d)")
  case None
  then have "\<forall>b\<in>set (bookings d). \<not> overlappingWhere v b"
    by (simp add: find_None_iff_all)
  with None show ?thesis
    by (simp add: bookingTransaction_def Let_def)
next
  case (Some b)
  then have "\<exists>b\<in>set (bookings d). overlappingWhere v b"
    by (metis find_None_iff_all option.distinct(1))
  with Some show ?thesis
    by (simp add: bookingTransaction_def)
qed

lemma bookingTransaction_free:
  assumes "\<forall>b\<in>set (bookings d). \<not> overlappingWhere v b"
  shows "bookingTransaction env v d =
           (Inr (toResult (newBooking env v (nextBookingId d))),
            d\<lparr> bookings := bookings d @ [newBooking env v (nextBookingId d)],
               nextBookingId := Suc (nextBookingId d) \<rparr>)"
proof -
  from assms have "find (overlappingWhere v) (bookings d) = None"
    by (simp add: find_None_iff_all)
  then show ?thesis
    by (simp add: bookingTransaction_def Let_def)
qed

lemma validated_runs_transaction:
  assumes "createBookingInputSchema env v"
    and "minDuration \<le> in_endTime v - in_startTime v"
    and "in_endTime v - in_startTime v \<le> maxDuration"
    and "now env \<le> in_startTime v"
  shows "createPendingBooking env v d = bookingTransaction env v d"
  using assms by (simp add: createPendingBooking_def Let_def)

lemma validated_interval:
  assumes "minDuration \<le> in_endTime v - in_startTime v"
  shows "in_startTime v < in_endTime v"
  using assms by (simp add: minDuration_def)

text \<open>
  Claim C2. For a request interval and a stored booking interval that are both non-empty,
  the three-clause disjunction of the \<open>findFirst\<close> filter holds exactly when the two
  intervals overlap half-open. Consequently, for a request that passes validation against
  a store whose bookings all have start before end, \<open>createPendingBooking\<close> throws
  CONFLICT, leaving the store as it was, exactly when some booking of the same admin in
  status pending or confirmed half-open-overlaps the requested interval.
\<close>

theorem conflict_iff_half_open_overlap:
  "(in_startTime v < in_endTime v \<and> b_startTime b < b_endTime b \<longrightarrow>
      ((startsDuring v b \<or> endsDuring v b \<or> containsExisting v b) \<longleftrightarrow>
       halfOpenOverlap (in_startTime v) (in_endTime v) (b_startTime b) (b_endTime b))) \<and>
   (createBookingInputSchema env input \<and>
    minDuration \<le> in_endTime input - in_startTime input \<and>
    in_endTime input - in_startTime input \<le> maxDuration \<and>
    now env \<le> in_startTime input \<and>
    (\<forall>x\<in>set (bookings d). b_startTime x < b_endTime x) \<longrightarrow>
      ((\<exists>m. createPendingBooking env input d = (Inl (CONFLICT m), d)) \<longleftrightarrow>
       (\<exists>x\<in>set (bookings d). overlapsRequest input x)))"
proof (intro conjI impI)
  assume "in_startTime v < in_endTime v \<and> b_startTime b < b_endTime b"
  then show "(startsDuring v b \<or> endsDuring v b \<or> containsExisting v b) \<longleftrightarrow>
       halfOpenOverlap (in_startTime v) (in_endTime v) (b_startTime b) (b_endTime b)"
    using clauses_iff_halfOpenOverlap by blast
next
  assume h: "createBookingInputSchema env input \<and>
    minDuration \<le> in_endTime input - in_startTime input \<and>
    in_endTime input - in_startTime input \<le> maxDuration \<and>
    now env \<le> in_startTime input \<and>
    (\<forall>x\<in>set (bookings d). b_startTime x < b_endTime x)"
  then have run: "createPendingBooking env input d = bookingTransaction env input d"
    using validated_runs_transaction by blast
  from h have iv: "in_startTime input < in_endTime input"
    using validated_interval by blast
  from h iv have "\<forall>x\<in>set (bookings d). overlappingWhere input x \<longleftrightarrow> overlapsRequest input x"
    using overlappingWhere_iff by blast
  then show "(\<exists>m. createPendingBooking env input d = (Inl (CONFLICT m), d)) \<longleftrightarrow>
       (\<exists>x\<in>set (bookings d). overlapsRequest input x)"
    unfolding run bookingTransaction_conflict by blast
qed

lemma insertedPending_transaction:
  assumes "createPendingBooking env v d = bookingTransaction env v d"
    and "\<forall>b\<in>set (bookings d). \<not> overlappingWhere v b"
  shows "insertedPending env v d"
  using assms bookingTransaction_free [OF assms(2), of env]
  by (simp add: insertedPending_def toResult_def newBooking_def)

lemma valid_free_insertedPending:
  assumes "createBookingInputSchema env v"
    and "minDuration \<le> in_endTime v - in_startTime v"
    and "in_endTime v - in_startTime v \<le> maxDuration"
    and "now env \<le> in_startTime v"
    and "\<forall>x\<in>set (bookings d). b_startTime x < b_endTime x \<and> \<not> overlapsRequest v x"
  shows "insertedPending env v d"
proof -
  have "in_startTime v < in_endTime v"
    using assms(2) by (rule validated_interval)
  with assms(5) have "\<forall>b\<in>set (bookings d). \<not> overlappingWhere v b"
    using overlappingWhere_iff by blast
  moreover have "createPendingBooking env v d = bookingTransaction env v d"
    using assms(1-4) by (rule validated_runs_transaction)
  ultimately show ?thesis
    by (rule insertedPending_transaction [rotated])
qed

lemma short_rejected:
  assumes "in_endTime v - in_startTime v < minDuration"
  shows "rejectedAsInvalid env v d"
  using assms by (simp add: rejectedAsInvalid_def createPendingBooking_def Let_def)

lemma long_rejected:
  assumes "in_endTime v - in_startTime v > maxDuration"
  shows "rejectedAsInvalid env v d"
  using assms by (simp add: rejectedAsInvalid_def createPendingBooking_def Let_def)

lemma past_rejected:
  assumes "in_startTime v < now env"
  shows "rejectedAsInvalid env v d"
  using assms by (simp add: rejectedAsInvalid_def createPendingBooking_def Let_def)

text \<open>
  The scenario of claim C2: a request for 10:00 to 10:30 against a confirmed booking at
  10:15 to 10:45 of the same admin is a conflict.
\<close>

theorem conflict_iff_half_open_overlap_witness:
  "in_startTime (request 36000000 37800000) < in_endTime (request 36000000 37800000) \<and>
   b_startTime confirmed1015 < b_endTime confirmed1015 \<and>
   halfOpenOverlap 36000000 37800000 36900000 38700000 \<and>
   (endsDuring (request 36000000 37800000) confirmed1015) \<and>
   (\<exists>m. createPendingBooking demoEnv (request 36000000 37800000)
           (emptyDb\<lparr>bookings := [confirmed1015]\<rparr>)
         = (Inl (CONFLICT m), emptyDb\<lparr>bookings := [confirmed1015]\<rparr>))"
proof -
  let ?v = "request 36000000 37800000"
  let ?d = "emptyDb\<lparr>bookings := [confirmed1015]\<rparr>"
  have iv: "in_startTime ?v < in_endTime ?v \<and> b_startTime confirmed1015 < b_endTime confirmed1015"
    by (simp add: request_def confirmed1015_def)
  have ok: "createBookingInputSchema demoEnv ?v \<and>
            minDuration \<le> in_endTime ?v - in_startTime ?v \<and>
            in_endTime ?v - in_startTime ?v \<le> maxDuration \<and>
            now demoEnv \<le> in_startTime ?v \<and>
            (\<forall>x\<in>set (bookings ?d). b_startTime x < b_endTime x)"
    by (simp add: createBookingInputSchema_def demoEnv_def request_def minDuration_def
        maxDuration_def emptyDb_def confirmed1015_def)
  have ov: "\<exists>x\<in>set (bookings ?d). overlapsRequest ?v x"
    by (simp add: overlapsRequest_def activeStatus_def halfOpenOverlap_def request_def
        emptyDb_def confirmed1015_def)
  have ho: "halfOpenOverlap 36000000 37800000 36900000 38700000"
    by (simp add: halfOpenOverlap_def)
  from conflict_iff_half_open_overlap [of ?v confirmed1015 demoEnv ?v ?d] iv ok ov
  have "(startsDuring ?v confirmed1015 \<or> endsDuring ?v confirmed1015 \<or>
           containsExisting ?v confirmed1015) \<and>
        (\<exists>m. createPendingBooking demoEnv ?v ?d = (Inl (CONFLICT m), ?d))"
    by (simp add: request_def confirmed1015_def halfOpenOverlap_def)
  moreover have "endsDuring ?v confirmed1015"
    by (simp add: endsDuring_def request_def confirmed1015_def)
  ultimately show ?thesis using iv ho by blast
qed

text \<open>
  Claim C7. A request that is otherwise valid (schema, start not before the clock, no
  overlapping pending or confirmed booking of the admin) and whose duration lies between
  exactly 15 minutes and exactly 8 hours, both included, is inserted as a pending booking;
  every request shorter than 15 minutes or longer than 8 hours is rejected with a
  validation error and writes nothing.
\<close>

theorem duration_bounds:
  "(createBookingInputSchema env input \<and> now env \<le> in_startTime input \<and>
    (\<forall>x\<in>set (bookings d). b_startTime x < b_endTime x \<and> \<not> overlapsRequest input x) \<and>
    15 * 60 * 1000 \<le> in_endTime input - in_startTime input \<and>
    in_endTime input - in_startTime input \<le> 8 * 60 * 60 * 1000
      \<longrightarrow> insertedPending env input d) \<and>
   (in_endTime input - in_startTime input < 15 * 60 * 1000 \<longrightarrow> rejectedAsInvalid env input d) \<and>
   (in_endTime input - in_startTime input > 8 * 60 * 60 * 1000 \<longrightarrow> rejectedAsInvalid env input d)"
proof (intro conjI impI)
  assume h: "createBookingInputSchema env input \<and> now env \<le> in_startTime input \<and>
    (\<forall>x\<in>set (bookings d). b_startTime x < b_endTime x \<and> \<not> overlapsRequest input x) \<and>
    15 * 60 * 1000 \<le> in_endTime input - in_startTime input \<and>
    in_endTime input - in_startTime input \<le> 8 * 60 * 60 * 1000"
  then show "insertedPending env input d"
    by (intro valid_free_insertedPending) (simp_all add: minDuration_def maxDuration_def)
next
  assume "in_endTime input - in_startTime input < 15 * 60 * 1000"
  then show "rejectedAsInvalid env input d"
    by (intro short_rejected) (simp add: minDuration_def)
next
  assume "in_endTime input - in_startTime input > 8 * 60 * 60 * 1000"
  then show "rejectedAsInvalid env input d"
    by (intro long_rejected) (simp add: maxDuration_def)
qed

text \<open>
  Claim C7 at its four boundary durations: exactly 15 minutes and exactly 8 hours are
  accepted, 14 minutes 59 seconds and 8 hours 1 second are rejected.
\<close>

theorem duration_bounds_witness:
  "insertedPending demoEnv (request 36000000 36900000) emptyDb \<and>
   insertedPending demoEnv (request 36000000 64800000) emptyDb \<and>
   rejectedAsInvalid demoEnv (request 36000000 36899000) emptyDb \<and>
   rejectedAsInvalid demoEnv (request 36000000 64801000) emptyDb"
proof -
  have ok: "\<And>e. createBookingInputSchema demoEnv (request 36000000 e) \<and>
            now demoEnv \<le> in_startTime (request 36000000 e) \<and>
            (\<forall>x\<in>set (bookings emptyDb).
               b_startTime x < b_endTime x \<and> \<not> overlapsRequest (request 36000000 e) x)"
    by (simp add: createBookingInputSchema_def demoEnv_def request_def emptyDb_def)
  have a: "insertedPending demoEnv (request 36000000 36900000) emptyDb"
    using duration_bounds [of demoEnv "request 36000000 36900000" emptyDb] ok
    by (simp add: request_def)
  have b: "insertedPending demoEnv (request 36000000 64800000) emptyDb"
    using duration_bounds [of demoEnv "request 36000000 64800000" emptyDb] ok
    by (simp add: request_def)
  have c: "rejectedAsInvalid demoEnv (request 36000000 36899000) emptyDb"
    using duration_bounds [of demoEnv "request 36000000 36899000" emptyDb]
    by (simp add: request_def)
  have d: "rejectedAsInvalid demoEnv (request 36000000 64801000) emptyDb"
    using duration_bounds [of demoEnv "request 36000000 64801000" emptyDb]
    by (simp add: request_def)
  from a b c d show ?thesis by blast
qed

text \<open>
  Claim C6 as stated fails on the boundary: a request whose start equals the clock reading
  is not strictly in the future, and it is accepted.
\<close>

theorem start_equal_to_now_accepted:
  "\<not> now demoEnv < in_startTime (request 0 1800000) \<and>
   createPendingBooking demoEnv (request 0 1800000) emptyDb =
     (Inr (toResult (newBooking demoEnv (request 0 1800000) 0)),
      emptyDb\<lparr> bookings := [newBooking demoEnv (request 0 1800000) 0], nextBookingId := 1 \<rparr>)"
  by (simp add: createPendingBooking_def bookingTransaction_def createBookingInputSchema_def
      demoEnv_def request_def emptyDb_def minDuration_def maxDuration_def Let_def)

text \<open>
  Claim C6, amended. Every request whose start is strictly before the clock reading is
  rejected with a validation error before the transaction, and no row is written; a
  request that starts exactly at the clock reading and is otherwise valid is inserted.
\<close>

theorem past_start_rejected:
  "(in_startTime input < now env \<longrightarrow> rejectedAsInvalid env input d) \<and>
   (in_startTime input = now env \<and> createBookingInputSchema env input \<and>
    minDuration \<le> in_endTime input - in_startTime input \<and>
    in_endTime input - in_startTime input \<le> maxDuration \<and>
    (\<forall>x\<in>set (bookings d). b_startTime x < b_endTime x \<and> \<not> overlapsRequest input x)
      \<longrightarrow> insertedPending env input d)"
proof (intro conjI impI)
  assume "in_startTime input < now env"
  then show "rejectedAsInvalid env input d" by (rule past_rejected)
next
  assume "in_startTime input = now env \<and> createBookingInputSchema env input \<and>
    minDuration \<le> in_endTime input - in_startTime input \<and>
    in_endTime input - in_startTime input \<le> maxDuration \<and>
    (\<forall>x\<in>set (bookings d). b_startTime x < b_endTime x \<and> \<not> overlapsRequest input x)"
  then show "insertedPending env input d"
    by (intro valid_free_insertedPending) simp_all
qed

text \<open>
  Claim C6, amended, at a start one millisecond in the past and at a start equal to the
  clock reading.
\<close>

theorem past_start_rejected_witness:
  "in_startTime (request (-1) 1799999) < now demoEnv \<and>
   rejectedAsInvalid demoEnv (request (-1) 1799999) emptyDb \<and>
   in_startTime (request 0 1800000) = now demoEnv \<and>
   insertedPending demoEnv (request 0 1800000) emptyDb"
proof -
  have p: "in_startTime (request (-1) 1799999) < now demoEnv"
    by (simp add: request_def demoEnv_def)
  have q: "in_startTime (request 0 1800000) = now demoEnv \<and>
    createBookingInputSchema demoEnv (request 0 1800000) \<and>
    minDuration \<le> in_endTime (request 0 1800000) - in_startTime (request 0 1800000) \<and>
    in_endTime (request 0 1800000) - in_startTime (request 0 1800000) \<le> maxDuration \<and>
    (\<forall>x\<in>set (bookings emptyDb).
       b_startTime x < b_endTime x \<and> \<not> overlapsRequest (request 0 1800000) x)"
    by (simp add: createBookingInputSchema_def demoEnv_def request_def emptyDb_def
        minDuration_def maxDuration_def)
  from past_start_rejected [of "request (-1) 1799999" demoEnv emptyDb] p
  have "rejectedAsInvalid demoEnv (request (-1) 1799999) emptyDb" by blast
  moreover from past_start_rejected [of "request 0 1800000" demoEnv emptyDb] q
  have "insertedPending demoEnv (request 0 1800000) emptyDb" by blast
  ultimately show ?thesis using p q by blast
qed

lemma createPendingBooking_reads_bookings_only:
  "fst (createPendingBooking env input (d\<lparr>calendarEvents := evs, availabilityBlocks := blocks\<rparr>))
     = fst (createPendingBooking env input d)"
  by (simp add: createPendingBooking_def bookingTransaction_def Let_def split: option.splits)

lemma createBooking_reads_bookings_only:
  "fst (createBooking env users rq (d\<lparr>calendarEvents := evs, availabilityBlocks := blocks\<rparr>))
     = fst (createBooking env users rq d)"
proof -
  have "fst (case createPendingBooking e v
                    (d\<lparr>calendarEvents := evs, availabilityBlocks := blocks\<rparr>) of
               (Inl err, d') \<Rightarrow> (Inl err, d')
             | (Inr booking, d') \<Rightarrow> (Inr (toResponse user booking), d'))
        = fst (case createPendingBooking e v d of
               (Inl err, d') \<Rightarrow> (Inl err, d')
             | (Inr booking, d') \<Rightarrow> (Inr (toResponse user booking), d'))"
    for e v user
    using createPendingBooking_reads_bookings_only
      [where env = e and input = v and d = d and evs = evs and blocks = blocks]
    by (cases "createPendingBooking e v d";
        cases "createPendingBooking e v (d\<lparr>calendarEvents := evs, availabilityBlocks := blocks\<rparr>)")
       (auto split: sum.splits)
  then show ?thesis
    by (simp add: createBooking_def split: option.splits)
qed

text \<open>
  Claim C9. \<open>createPendingBooking\<close> reads only the bookings: whatever the cached busy
  intervals and the availability blocks of the store are, a request that passes validation
  and overlaps no pending or confirmed booking of the admin is inserted as a pending
  booking, and the outcome of any request is the same as on the store without them. The
  same holds one level up, for the public \<open>createBooking\<close> mutation.
\<close>

theorem booking_ignores_calendar_and_blocks:
  "(createBookingInputSchema env input \<and>
    minDuration \<le> in_endTime input - in_startTime input \<and>
    in_endTime input - in_startTime input \<le> maxDuration \<and>
    now env \<le> in_startTime input \<and>
    (\<forall>x\<in>set (bookings d). b_startTime x < b_endTime x \<and> \<not> overlapsRequest input x)
      \<longrightarrow> insertedPending env input (d\<lparr>calendarEvents := evs, availabilityBlocks := blocks\<rparr>)) \<and>
   fst (createPendingBooking env input (d\<lparr>calendarEvents := evs, availabilityBlocks := blocks\<rparr>))
     = fst (createPendingBooking env input d) \<and>
   fst (createBooking renv users rq (d\<lparr>calendarEvents := evs, availabilityBlocks := blocks\<rparr>))
     = fst (createBooking renv users rq d)"
proof (intro conjI impI)
  assume "createBookingInputSchema env input \<and>
    minDuration \<le> in_endTime input - in_startTime input \<and>
    in_endTime input - in_startTime input \<le> maxDuration \<and>
    now env \<le> in_startTime input \<and>
    (\<forall>x\<in>set (bookings d). b_startTime x < b_endTime x \<and> \<not> overlapsRequest input x)"
  then show "insertedPending env input (d\<lparr>calendarEvents := evs, availabilityBlocks := blocks\<rparr>)"
    by (intro valid_free_insertedPending) simp_all
next
  show "fst (createPendingBooking env input
               (d\<lparr>calendarEvents := evs, availabilityBlocks := blocks\<rparr>))
          = fst (createPendingBooking env input d)"
    by (rule createPendingBooking_reads_bookings_only)
next
  show "fst (createBooking renv users rq
               (d\<lparr>calendarEvents := evs, availabilityBlocks := blocks\<rparr>))
          = fst (createBooking renv users rq d)"
    by (rule createBooking_reads_bookings_only)
qed

text \<open>
  Claim C9 at a request that coincides with a cached busy interval, for an admin with no
  availability block at all.
\<close>

theorem booking_ignores_calendar_and_blocks_witness:
  "slotsOverlap (in_startTime (request 36000000 37800000), in_endTime (request 36000000 37800000))
     (ev_startTime busy1000, ev_endTime busy1000) \<and>
   insertedPending demoEnv (request 36000000 37800000)
     (emptyDb\<lparr>calendarEvents := [busy1000], availabilityBlocks := []\<rparr>)"
proof -
  have q: "createBookingInputSchema demoEnv (request 36000000 37800000) \<and>
    minDuration \<le> in_endTime (request 36000000 37800000) - in_startTime (request 36000000 37800000) \<and>
    in_endTime (request 36000000 37800000) - in_startTime (request 36000000 37800000) \<le> maxDuration \<and>
    now demoEnv \<le> in_startTime (request 36000000 37800000) \<and>
    (\<forall>x\<in>set (bookings emptyDb).
       b_startTime x < b_endTime x \<and> \<not> overlapsRequest (request 36000000 37800000) x)"
    by (simp add: createBookingInputSchema_def demoEnv_def request_def emptyDb_def
        minDuration_def maxDuration_def)
  have "slotsOverlap (in_startTime (request 36000000 37800000), in_endTime (request 36000000 37800000))
     (ev_startTime busy1000, ev_endTime busy1000)"
    by (simp add: slotsOverlap_def request_def busy1000_def)
  moreover from booking_ignores_calendar_and_blocks
     [where env = demoEnv and input = "request 36000000 37800000" and d = emptyDb
        and evs = "[busy1000]" and blocks = "[]"] q
  have "insertedPending demoEnv (request 36000000 37800000)
     (emptyDb\<lparr>calendarEvents := [busy1000], availabilityBlocks := []\<rparr>)" by blast
  ultimately show ?thesis by blast
qed

lemma accepted_is_valid:
  assumes "createPendingBooking env v d = (Inr r, d')"
  shows "in_startTime v < in_endTime v \<and>
         bookings d' = bookings d @ [newBooking env v (nextBookingId d)]"
proof -
  from assms have val: "createBookingInputSchema env v \<and>
      minDuration \<le> in_endTime v - in_startTime v \<and>
      in_endTime v - in_startTime v \<le> maxDuration \<and> now env \<le> in_startTime v"
    by (auto simp: createPendingBooking_def Let_def split: if_splits)
  then have run: "createPendingBooking env v d = bookingTransaction env v d"
    using validated_runs_transaction by blast
  from val have "in_startTime v < in_endTime v"
    using validated_interval by blast
  moreover from assms run have
    "bookings d' = bookings d @ [newBooking env v (nextBookingId d)]"
    by (auto simp: bookingTransaction_def Let_def split: option.splits)
  ultimately show ?thesis by blast
qed

text \<open>
  Run one after the other, two overlapping requests for the same admin cannot both
  succeed: once a request has been inserted, every later valid request of the same admin
  whose interval half-open-overlaps it throws CONFLICT and leaves the store as it is.
\<close>

theorem second_overlapping_request_conflicts:
  "createPendingBooking env1 v1 d = (Inr r1, d1) \<and>
   createBookingInputSchema env2 v2 \<and>
   minDuration \<le> in_endTime v2 - in_startTime v2 \<and>
   in_endTime v2 - in_startTime v2 \<le> maxDuration \<and>
   now env2 \<le> in_startTime v2 \<and>
   in_userId v2 = in_userId v1 \<and>
   halfOpenOverlap (in_startTime v2) (in_endTime v2) (in_startTime v1) (in_endTime v1)
     \<longrightarrow> (\<exists>m. createPendingBooking env2 v2 d1 = (Inl (CONFLICT m), d1))"
proof
  assume h: "createPendingBooking env1 v1 d = (Inr r1, d1) \<and>
   createBookingInputSchema env2 v2 \<and>
   minDuration \<le> in_endTime v2 - in_startTime v2 \<and>
   in_endTime v2 - in_startTime v2 \<le> maxDuration \<and>
   now env2 \<le> in_startTime v2 \<and>
   in_userId v2 = in_userId v1 \<and>
   halfOpenOverlap (in_startTime v2) (in_endTime v2) (in_startTime v1) (in_endTime v1)"
  let ?b = "newBooking env1 v1 (nextBookingId d)"
  from h have first: "in_startTime v1 < in_endTime v1 \<and> bookings d1 = bookings d @ [?b]"
    using accepted_is_valid by blast
  from h have iv2: "in_startTime v2 < in_endTime v2"
    using validated_interval by blast
  from first have "b_startTime ?b < b_endTime ?b" by (simp add: newBooking_def)
  with iv2 have "overlappingWhere v2 ?b \<longleftrightarrow> overlapsRequest v2 ?b"
    by (rule overlappingWhere_iff)
  moreover from h have "overlapsRequest v2 ?b"
    by (simp add: overlapsRequest_def activeStatus_def newBooking_def)
  ultimately have "\<exists>b\<in>set (bookings d1). overlappingWhere v2 b"
    using first by simp
  then have "\<exists>m. bookingTransaction env2 v2 d1 = (Inl (CONFLICT m), d1)"
    by (simp only: bookingTransaction_conflict)
  moreover from h have "createPendingBooking env2 v2 d1 = bookingTransaction env2 v2 d1"
    using validated_runs_transaction by blast
  ultimately show "\<exists>m. createPendingBooking env2 v2 d1 = (Inl (CONFLICT m), d1)"
    by simp
qed

text \<open>
  A request for 10:00 to 10:30 is inserted; a following one for 10:15 to 10:45 conflicts.
\<close>

theorem second_overlapping_request_conflicts_witness:
  "createPendingBooking demoEnv (request 36000000 37800000) emptyDb =
     (Inr (toResult (newBooking demoEnv (request 36000000 37800000) 0)),
      emptyDb\<lparr> bookings := [newBooking demoEnv (request 36000000 37800000) 0],
               nextBookingId := 1 \<rparr>) \<and>
   halfOpenOverlap 36900000 38700000 36000000 37800000 \<and>
   (\<exists>m. createPendingBooking demoEnv (request 36900000 38700000)
           (emptyDb\<lparr> bookings := [newBooking demoEnv (request 36000000 37800000) 0],
                    nextBookingId := 1 \<rparr>)
         = (Inl (CONFLICT m),
            emptyDb\<lparr> bookings := [newBooking demoEnv (request 36000000 37800000) 0],
                     nextBookingId := 1 \<rparr>))"
proof -
  let ?d1 = "emptyDb\<lparr> bookings := [newBooking demoEnv (request 36000000 37800000) 0],
               nextBookingId := 1 \<rparr>"
  have first: "createPendingBooking demoEnv (request 36000000 37800000) emptyDb =
     (Inr (toResult (newBooking demoEnv (request 36000000 37800000) 0)), ?d1)"
    by (simp add: createPendingBooking_def bookingTransaction_def createBookingInputSchema_def
        demoEnv_def request_def emptyDb_def minDuration_def maxDuration_def Let_def)
  have second: "createBookingInputSchema demoEnv (request 36900000 38700000) \<and>
     minDuration \<le> in_endTime (request 36900000 38700000) - in_startTime (request 36900000 38700000) \<and>
     in_endTime (request 36900000 38700000) - in_startTime (request 36900000 38700000) \<le> maxDuration \<and>
     now demoEnv \<le> in_startTime (request 36900000 38700000) \<and>
     in_userId (request 36900000 38700000) = in_userId (request 36000000 37800000) \<and>
     halfOpenOverlap (in_startTime (request 36900000 38700000))
       (in_endTime (request 36900000 38700000))
       (in_startTime (request 36000000 37800000)) (in_endTime (request 36000000 37800000))"
    by (simp add: createBookingInputSchema_def demoEnv_def request_def minDuration_def
        maxDuration_def halfOpenOverlap_def)
  have ho: "halfOpenOverlap 36900000 38700000 36000000 37800000"
    by (simp add: halfOpenOverlap_def)
  from second_overlapping_request_conflicts
    [where ?env1.0 = demoEnv and ?v1.0 = "request 36000000 37800000" and d = emptyDb
       and ?r1.0 = "toResult (newBooking demoEnv (request 36000000 37800000) 0)"
       and ?d1.0 = ?d1 and ?env2.0 = demoEnv and ?v2.0 = "request 36900000 38700000"]
    first second
  have "\<exists>m. createPendingBooking demoEnv (request 36900000 38700000) ?d1
         = (Inl (CONFLICT m), ?d1)"
    by blast
  with first ho show ?thesis by blast
qed

section \<open>CalendarSyncService: theorems\<close>

lemma keysKept_refl: "calendarEvents d' = calendarEvents d \<Longrightarrow> keysKept d d'"
  by (simp add: keysKept_def)

lemma keysKept_trans: "keysKept a b \<Longrightarrow> keysKept b c \<Longrightarrow> keysKept a c"
  unfolding keysKept_def by (rule prefix_order.trans)

lemma upsertEvent_keys:
  "prefix (map evKey evs) (map evKey (upsertEvent t i x s e ttl evs))"
proof (cases "list_ex (sameEvent i x) evs")
  case True
  have "map evKey (map (\<lambda>ev. if sameEvent i x ev
          then ev\<lparr> ev_startTime := s, ev_endTime := e, ev_title := ttl, ev_syncedAt := t \<rparr>
          else ev) evs) = map evKey evs"
    by (induction evs) (simp_all add: evKey_def)
  moreover from True have "upsertEvent t i x s e ttl evs =
      map (\<lambda>ev. if sameEvent i x ev
          then ev\<lparr> ev_startTime := s, ev_endTime := e, ev_title := ttl, ev_syncedAt := t \<rparr>
          else ev) evs"
    by (simp add: upsertEvent_def)
  ultimately show ?thesis by (simp only: prefix_order.refl)
next
  case False
  then show ?thesis by (simp add: upsertEvent_def)
qed

lemma processSyncEvents_keys: "keysKept d (snd (processSyncEvents env i evs n d))"
proof (induction evs arbitrary: n d)
  case Nil
  show ?case by (simp add: keysKept_refl)
next
  case (Cons ev evs)
  show ?case
  proof (cases "g_id ev = [] \<or> \<not> truthy (g_start_dateTime ev)")
    case True
    then show ?thesis using Cons.IH [of d n] by auto
  next
    case False
    show ?thesis
    proof (cases "upsertFault env (g_id ev)")
      case None
      let ?d1 = "d\<lparr> calendarEvents :=
          upsertEvent (s_now env) i (g_id ev) (parseDate env (the (g_start_dateTime ev)))
            (if truthy (g_end_dateTime ev) then parseDate env (the (g_end_dateTime ev))
             else parseDate env (the (g_start_dateTime ev)))
            (if truthy (g_summary ev) then the (g_summary ev) else ''Untitled Event'')
            (calendarEvents d) \<rparr>"
      have "keysKept d ?d1"
        by (simp add: keysKept_def upsertEvent_keys)
      moreover have "keysKept ?d1 (snd (processSyncEvents env i evs (Suc n) ?d1))"
        by (rule Cons.IH)
      ultimately have "keysKept d (snd (processSyncEvents env i evs (Suc n) ?d1))"
        by (rule keysKept_trans)
      with False None show ?thesis by (simp add: Let_def)
    next
      case (Some m)
      with False show ?thesis by (simp add: Let_def keysKept_refl)
    qed
  qed
qed

lemma processSyncEvents_frame:
  "calendarIntegrations (snd (processSyncEvents env i evs n d)) = calendarIntegrations d"
  by (induction evs arbitrary: n d) (simp_all add: Let_def split: option.splits)

lemma find_after_update:
  assumes "\<And>x. ci_id (f x) = ci_id x"
  shows "find (\<lambda>x. ci_id x = i) (map (\<lambda>x. if ci_id x = i then f x else x) xs)
           = map_option f (find (\<lambda>x. ci_id x = i) xs)"
  using assms by (induction xs) simp_all

lemma findIntegration_update:
  assumes "\<And>x. ci_id (f x) = ci_id x"
  shows "findIntegration (updateIntegration i f d) i = map_option f (findIntegration d i)"
  using find_after_update [OF assms]
  by (simp add: findIntegration_def updateIntegration_def)

lemma findIntegration_frame:
  "calendarIntegrations d1 = calendarIntegrations d \<Longrightarrow>
     findIntegration d1 i = findIntegration d i"
  by (simp add: findIntegration_def)

lemma syncFailed_events: "calendarEvents (snd (syncFailed env i m d)) = calendarEvents d"
  by (simp add: syncFailed_def updateIntegration_def split: option.splits)

lemma syncSucceeded_events:
  "calendarEvents (snd (syncSucceeded env i res n d)) = calendarEvents d"
  by (simp add: syncSucceeded_def syncFailed_events updateIntegration_def split: option.splits)

lemma syncFailed_post:
  assumes "calendarIntegrations d1 = calendarIntegrations d" and "keysKept d d1"
  shows "syncPost env i d (syncFailed env i m d1)"
proof (cases "errorUpdateFault env")
  case (Some e)
  with assms show ?thesis by (simp add: syncFailed_def syncPost_def)
next
  case None
  note nofault = None
  show ?thesis
  proof (cases "findIntegration d i")
    case None
    with nofault assms show ?thesis
      by (simp add: syncFailed_def syncPost_def findIntegration_frame [OF assms(1)])
  next
    case (Some integ)
    have fd: "findIntegration
                (updateIntegration i
                   (\<lambda>x. x\<lparr> ci_syncStatus := ''error'', ci_syncError := Some m \<rparr>) d1) i
              = Some (integ\<lparr> ci_syncStatus := ''error'', ci_syncError := Some m \<rparr>)"
      using Some by (simp add: findIntegration_update findIntegration_frame [OF assms(1)])
    have kk: "keysKept d (updateIntegration i
                   (\<lambda>x. x\<lparr> ci_syncStatus := ''error'', ci_syncError := Some m \<rparr>) d1)"
      using assms(2) by (simp add: keysKept_def updateIntegration_def)
    from nofault Some fd kk show ?thesis
      by (simp add: syncFailed_def syncPost_def findIntegration_frame [OF assms(1)])
  qed
qed

lemma syncSucceeded_post:
  assumes "findIntegration d i = Some integ"
    and "calendarIntegrations d1 = calendarIntegrations d" and "keysKept d d1"
  shows "syncPost env i d (syncSucceeded env i res n d1)"
proof (cases "updateFault env")
  case (Some e)
  then show ?thesis
    using syncFailed_post [OF assms(2,3)] by (simp add: syncSucceeded_def)
next
  case None
  let ?f = "\<lambda>x. x\<lparr> ci_syncToken := (case nextSyncToken res of
                                        None \<Rightarrow> ci_syncToken x | Some t \<Rightarrow> Some t),
                     ci_lastSyncAt := Some (s_now env),
                     ci_syncStatus := ''active'', ci_syncError := None \<rparr>"
  have fd: "findIntegration (updateIntegration i ?f d1) i = Some (?f integ)"
    using assms(1) by (simp add: findIntegration_update findIntegration_frame [OF assms(2)])
  have kk: "keysKept d (updateIntegration i ?f d1)"
    using assms(3) by (simp add: keysKept_def updateIntegration_def)
  from None assms(1) fd kk show ?thesis
    by (simp add: syncSucceeded_def syncPost_def)
qed

lemma syncWith_post:
  assumes "findIntegration d i = Some integ"
  shows "syncPost env i d (syncWith env i integ' opts d)"
proof (cases "listEvents env (ci_calendarId integ') opts")
  case (Inl m)
  then show ?thesis
    using syncFailed_post [of d d env i m] by (simp add: syncWith_def keysKept_refl)
next
  case (Inr res)
  obtain x d1 where p: "processSyncEvents env i (events res) 0 d = (x, d1)"
    by (cases "processSyncEvents env i (events res) 0 d")
  have fr: "calendarIntegrations d1 = calendarIntegrations d"
    using processSyncEvents_frame [of env i "events res" 0 d] p by simp
  have kk: "keysKept d d1"
    using processSyncEvents_keys [of d env i "events res" 0] p by simp
  show ?thesis
  proof (cases x)
    case (Inl m)
    with Inr p show ?thesis
      using syncFailed_post [OF fr kk] by (simp add: syncWith_def)
  next
    case (Inr n)
    with \<open>listEvents env (ci_calendarId integ') opts = Inr res\<close> p show ?thesis
      using syncSucceeded_post [OF assms fr kk] by (simp add: syncWith_def)
  qed
qed

lemma performFullSync_post: "syncPost env i d (performFullSync env i d)"
proof (cases "findUniqueFault env")
  case (Some m)
  then show ?thesis
    using syncFailed_post [of d d env i m] by (simp add: performFullSync_def keysKept_refl)
next
  case None
  note nofault = None
  show ?thesis
  proof (cases "findIntegration d i")
    case None
    with nofault show ?thesis
      using syncFailed_post [of d d env i] by (simp add: performFullSync_def keysKept_refl)
  next
    case (Some integ)
    with nofault show ?thesis
      using syncWith_post [OF Some] by (simp add: performFullSync_def)
  qed
qed

lemma performIncrementalSync_post: "syncPost env i d (performIncrementalSync env i d)"
proof (cases "findUniqueFault env")
  case (Some m)
  then show ?thesis
    using syncFailed_post [of d d env i m]
    by (simp add: performIncrementalSync_def keysKept_refl)
next
  case None
  note nofault = None
  show ?thesis
  proof (cases "findIntegration d i")
    case None
    with nofault show ?thesis
      using syncFailed_post [of d d env i]
      by (simp add: performIncrementalSync_def keysKept_refl)
  next
    case (Some integ)
    with nofault show ?thesis
      using syncWith_post [OF Some] performFullSync_post [of env i d]
      by (simp add: performIncrementalSync_def)
  qed
qed

lemma upsertEvent_other:
  assumes "e \<in> set evs" and "ev_externalEventId e \<noteq> x"
  shows "e \<in> set (upsertEvent t i x s en ttl evs)"
proof (cases "list_ex (sameEvent i x) evs")
  case True
  let ?f = "\<lambda>ev. if sameEvent i x ev
          then ev\<lparr> ev_startTime := s, ev_endTime := en, ev_title := ttl, ev_syncedAt := t \<rparr>
          else ev"
  from assms(2) have "?f e = e" by (simp add: sameEvent_def)
  moreover from assms(1) have "?f e \<in> ?f ` set evs" by (rule imageI)
  ultimately have "e \<in> ?f ` set evs" by simp
  moreover from True have "set (upsertEvent t i x s en ttl evs) = ?f ` set evs"
    by (simp add: upsertEvent_def)
  ultimately show ?thesis by simp
next
  case False
  with assms(1) show ?thesis by (simp add: upsertEvent_def)
qed

lemma processSyncEvents_persist:
  assumes "e \<in> set (calendarEvents d)" and "unmentioned e evs"
  shows "e \<in> set (calendarEvents (snd (processSyncEvents env i evs n d)))"
  using assms
proof (induction evs arbitrary: n d)
  case Nil
  then show ?case by simp
next
  case (Cons g evs)
  from Cons.prems(2) have rest: "unmentioned e evs"
    by (simp add: unmentioned_def)
  show ?case
  proof (cases "g_id g = [] \<or> \<not> truthy (g_start_dateTime g)")
    case True
    then show ?thesis using Cons.IH [OF Cons.prems(1) rest, of n] by auto
  next
    case False
    with Cons.prems(2) have ne: "ev_externalEventId e \<noteq> g_id g"
      by (auto simp: unmentioned_def)
    show ?thesis
    proof (cases "upsertFault env (g_id g)")
      case None
      let ?d1 = "d\<lparr> calendarEvents :=
          upsertEvent (s_now env) i (g_id g) (parseDate env (the (g_start_dateTime g)))
            (if truthy (g_end_dateTime g) then parseDate env (the (g_end_dateTime g))
             else parseDate env (the (g_start_dateTime g)))
            (if truthy (g_summary g) then the (g_summary g) else ''Untitled Event'')
            (calendarEvents d) \<rparr>"
      have "e \<in> set (calendarEvents ?d1)"
        using Cons.prems(1) ne by (simp add: upsertEvent_other)
      then have "e \<in> set (calendarEvents (snd (processSyncEvents env i evs (Suc n) ?d1)))"
        using rest by (rule Cons.IH)
      with False None show ?thesis by (simp add: Let_def)
    next
      case (Some m)
      with False Cons.prems(1) show ?thesis by (simp add: Let_def)
    qed
  qed
qed

lemma syncWith_persist:
  assumes "e \<in> set (calendarEvents d)"
    and "\<And>res. listEvents env (ci_calendarId integ) opts = Inr res \<Longrightarrow> unmentioned e (events res)"
  shows "e \<in> set (calendarEvents (snd (syncWith env i integ opts d)))"
proof (cases "listEvents env (ci_calendarId integ) opts")
  case (Inl m)
  with assms(1) show ?thesis by (simp add: syncWith_def syncFailed_events)
next
  case (Inr res)
  then have "unmentioned e (events res)" by (rule assms(2))
  with assms(1) have k: "e \<in> set (calendarEvents (snd (processSyncEvents env i (events res) 0 d)))"
    by (rule processSyncEvents_persist)
  obtain x d1 where p: "processSyncEvents env i (events res) 0 d = (x, d1)"
    by (cases "processSyncEvents env i (events res) 0 d")
  with k have k1: "e \<in> set (calendarEvents d1)" by simp
  show ?thesis
  proof (cases x)
    case (Inl m)
    with Inr p k1 show ?thesis by (simp add: syncWith_def syncFailed_events)
  next
    case (Inr n)
    with \<open>listEvents env (ci_calendarId integ) opts = Inr res\<close> p k1 show ?thesis
      by (simp add: syncWith_def syncSucceeded_events)
  qed
qed

lemma performFullSync_persist:
  assumes "e \<in> set (calendarEvents d)"
    and "\<And>c opts res. listEvents env c opts = Inr res \<Longrightarrow> unmentioned e (events res)"
  shows "e \<in> set (calendarEvents (snd (performFullSync env i d)))"
proof (cases "findUniqueFault env")
  case (Some m)
  with assms(1) show ?thesis by (simp add: performFullSync_def syncFailed_events)
next
  case None
  note nofault = None
  show ?thesis
  proof (cases "findIntegration d i")
    case None
    with nofault assms(1) show ?thesis by (simp add: performFullSync_def syncFailed_events)
  next
    case (Some integ)
    have "e \<in> set (calendarEvents (snd (syncWith env i integ (fullWindow env) d)))"
      using assms(1) assms(2) by (rule syncWith_persist)
    with nofault Some show ?thesis by (simp add: performFullSync_def)
  qed
qed

lemma performIncrementalSync_persist:
  assumes "e \<in> set (calendarEvents d)"
    and "\<And>c opts res. listEvents env c opts = Inr res \<Longrightarrow> unmentioned e (events res)"
  shows "e \<in> set (calendarEvents (snd (performIncrementalSync env i d)))"
proof (cases "findUniqueFault env")
  case (Some m)
  with assms(1) show ?thesis by (simp add: performIncrementalSync_def syncFailed_events)
next
  case None
  note nofault = None
  show ?thesis
  proof (cases "findIntegration d i")
    case None
    with nofault assms(1) show ?thesis
      by (simp add: performIncrementalSync_def syncFailed_events)
  next
    case (Some integ)
    have "e \<in> set (calendarEvents (snd (syncWith env i integ
             \<lparr> lo_syncToken = ci_syncToken integ, lo_timeMin = None, lo_timeMax = None \<rparr> d)))"
      using assms(1) assms(2) by (rule syncWith_persist)
    moreover have "e \<in> set (calendarEvents (snd (performFullSync env i d)))"
      using assms(1) assms(2) by (rule performFullSync_persist)
    ultimately show ?thesis
      using nofault Some by (simp add: performIncrementalSync_def)
  qed
qed

lemma cleanup_all:
  "e \<in> set (calendarEvents (snd (cleanupOldEvents env None d))) \<longleftrightarrow>
     e \<in> set (calendarEvents d) \<and> \<not> ev_startTime e < subDays env (s_now env) 90"
  by (auto simp: cleanupOldEvents_def cleanupWhere_def Let_def)

lemma cleanup_one:
  "iid \<noteq> [] \<Longrightarrow>
   e \<in> set (calendarEvents (snd (cleanupOldEvents env (Some iid) d))) \<longleftrightarrow>
     e \<in> set (calendarEvents d) \<and>
     \<not> (ev_calendarIntegrationId e = iid \<and> ev_startTime e < subDays env (s_now env) 90)"
  by (auto simp: cleanupOldEvents_def cleanupWhere_def Let_def)

lemma skip_event:
  "g_id event = [] \<or> \<not> truthy (g_start_dateTime event) \<Longrightarrow>
   processSyncEvents env i (event # rest) n d = processSyncEvents env i rest n d"
  by auto

text \<open>
  Claim C10. Neither sync deletes a cached interval: after \<open>performFullSync\<close> and after
  \<open>performIncrementalSync\<close>, whatever their outcome, the keys (integration id, external
  event id) of the rows cached before are still there, in place. An event without an id or
  without a start date-time is skipped. A cached row survives both syncs unchanged when no
  answer of the provider carries an event with its id and a start date-time, which is how a
  deleted or cancelled event arrives. \<open>cleanupOldEvents\<close> removes exactly the rows
  whose start is before the 90-day cutoff (of the given integration, when one is given).
\<close>

theorem sync_never_deletes:
  "keysKept d (snd (performFullSync env i d)) \<and>
   keysKept d (snd (performIncrementalSync env i d)) \<and>
   (g_id event = [] \<or> \<not> truthy (g_start_dateTime event) \<longrightarrow>
      processSyncEvents env i (event # rest) n d = processSyncEvents env i rest n d) \<and>
   (e \<in> set (calendarEvents d) \<and>
    (\<forall>c opts res. listEvents env c opts = Inr res \<longrightarrow> unmentioned e (events res)) \<longrightarrow>
      e \<in> set (calendarEvents (snd (performFullSync env i d))) \<and>
      e \<in> set (calendarEvents (snd (performIncrementalSync env i d)))) \<and>
   (e \<in> set (calendarEvents (snd (cleanupOldEvents env None d))) \<longleftrightarrow>
      e \<in> set (calendarEvents d) \<and> \<not> ev_startTime e < subDays env (s_now env) 90) \<and>
   (iid \<noteq> [] \<longrightarrow>
      (e \<in> set (calendarEvents (snd (cleanupOldEvents env (Some iid) d))) \<longleftrightarrow>
         e \<in> set (calendarEvents d) \<and>
         \<not> (ev_calendarIntegrationId e = iid \<and> ev_startTime e < subDays env (s_now env) 90)))"
proof (intro conjI impI)
  show "keysKept d (snd (performFullSync env i d))"
    using performFullSync_post [of env i d]
    by (auto simp: syncPost_def split: prod.splits sum.splits)
  show "keysKept d (snd (performIncrementalSync env i d))"
    using performIncrementalSync_post [of env i d]
    by (auto simp: syncPost_def split: prod.splits sum.splits)
  show "processSyncEvents env i (event # rest) n d = processSyncEvents env i rest n d"
    if "g_id event = [] \<or> \<not> truthy (g_start_dateTime event)"
    using that by (rule skip_event)
  show "e \<in> set (calendarEvents (snd (performFullSync env i d)))"
    if "e \<in> set (calendarEvents d) \<and>
        (\<forall>c opts res. listEvents env c opts = Inr res \<longrightarrow> unmentioned e (events res))"
  proof (rule performFullSync_persist)
    show "e \<in> set (calendarEvents d)" using that by simp
    show "unmentioned e (events res)" if "listEvents env c opts = Inr res" for c opts res
      using that \<open>e \<in> set (calendarEvents d) \<and>
        (\<forall>c opts res. listEvents env c opts = Inr res \<longrightarrow> unmentioned e (events res))\<close>
      by blast
  qed
  show "e \<in> set (calendarEvents (snd (performIncrementalSync env i d)))"
    if "e \<in> set (calendarEvents d) \<and>
        (\<forall>c opts res. listEvents env c opts = Inr res \<longrightarrow> unmentioned e (events res))"
  proof (rule performIncrementalSync_persist)
    show "e \<in> set (calendarEvents d)" using that by simp
    show "unmentioned e (events res)" if "listEvents env c opts = Inr res" for c opts res
      using that \<open>e \<in> set (calendarEvents d) \<and>
        (\<forall>c opts res. listEvents env c opts = Inr res \<longrightarrow> unmentioned e (events res))\<close>
      by blast
  qed
  show "e \<in> set (calendarEvents (snd (cleanupOldEvents env None d))) \<longleftrightarrow>
      e \<in> set (calendarEvents d) \<and> \<not> ev_startTime e < subDays env (s_now env) 90"
    by (rule cleanup_all)
  show "e \<in> set (calendarEvents (snd (cleanupOldEvents env (Some iid) d))) \<longleftrightarrow>
         e \<in> set (calendarEvents d) \<and>
         \<not> (ev_calendarIntegrationId e = iid \<and> ev_startTime e < subDays env (s_now env) 90)"
    if "iid \<noteq> []"
    using that by (rule cleanup_one)
qed

text \<open>
  Claim C10 on a cached row that the provider reports as cancelled: the incremental sync
  keeps it, the cleanup keeps it while it is recent and removes it 91 days later.
\<close>

theorem sync_never_deletes_witness:
  "cachedRow \<in> set (calendarEvents
      (snd (performIncrementalSync reportsCancelled ''int-1''
              ((syncDb (Some ''token-1''))\<lparr>calendarEvents := [cachedRow]\<rparr>)))) \<and>
   processSyncEvents reportsCancelled ''int-1'' [cancelled ''evt-1''] 0
       ((syncDb (Some ''token-1''))\<lparr>calendarEvents := [cachedRow]\<rparr>)
     = (Inr 0, (syncDb (Some ''token-1''))\<lparr>calendarEvents := [cachedRow]\<rparr>) \<and>
   cachedRow \<in> set (calendarEvents
      (snd (cleanupOldEvents goodProvider None
              ((syncDb (Some ''token-1''))\<lparr>calendarEvents := [cachedRow]\<rparr>)))) \<and>
   cachedRow \<notin> set (calendarEvents
      (snd (cleanupOldEvents laterClock None
              ((syncDb (Some ''token-1''))\<lparr>calendarEvents := [cachedRow]\<rparr>)))) \<and>
   cachedRow \<notin> set (calendarEvents
      (snd (cleanupOldEvents laterClock (Some ''int-1'')
              ((syncDb (Some ''token-1''))\<lparr>calendarEvents := [cachedRow]\<rparr>))))"
proof -
  let ?d = "(syncDb (Some ''token-1''))\<lparr>calendarEvents := [cachedRow]\<rparr>"
  have mem: "cachedRow \<in> set (calendarEvents ?d)" by simp
  have un: "\<forall>c opts res. listEvents reportsCancelled c opts = Inr res \<longrightarrow>
              unmentioned cachedRow (events res)"
    by (auto simp: reportsCancelled_def unmentioned_def cancelled_def)
  have skip: "g_id (cancelled ''evt-1'') = [] \<or> \<not> truthy (g_start_dateTime (cancelled ''evt-1''))"
    by (simp add: cancelled_def)
  note t1 = sync_never_deletes [where env = reportsCancelled and i = "''int-1''" and d = ?d
      and e = cachedRow and event = "cancelled ''evt-1''" and rest = "[]" and n = 0
      and iid = "''int-1''"]
  note t2 = sync_never_deletes [where env = goodProvider and i = "''int-1''" and d = ?d
      and e = cachedRow and event = "cancelled ''evt-1''" and rest = "[]" and n = 0
      and iid = "''int-1''"]
  note t3 = sync_never_deletes [where env = laterClock and i = "''int-1''" and d = ?d
      and e = cachedRow and event = "cancelled ''evt-1''" and rest = "[]" and n = 0
      and iid = "''int-1''"]
  from t1 mem un have a: "cachedRow \<in> set (calendarEvents
      (snd (performIncrementalSync reportsCancelled ''int-1'' ?d)))"
    by blast
  from t1 skip have b: "processSyncEvents reportsCancelled ''int-1'' [cancelled ''evt-1''] 0 ?d
      = (Inr 0, ?d)"
    by simp
  have c1: "\<not> ev_startTime cachedRow < subDays goodProvider (s_now goodProvider) 90"
    by (simp add: cachedRow_def goodProvider_def dayMs_def)
  from t2 mem c1 have c: "cachedRow \<in> set (calendarEvents
      (snd (cleanupOldEvents goodProvider None ?d)))"
    by blast
  have d1: "ev_startTime cachedRow < subDays laterClock (s_now laterClock) 90"
    by (simp add: cachedRow_def laterClock_def goodProvider_def dayMs_def)
  from t3 d1 have d: "cachedRow \<notin> set (calendarEvents
      (snd (cleanupOldEvents laterClock None ?d)))"
    by blast
  have e1: "ev_calendarIntegrationId cachedRow = ''int-1'' \<and> ''int-1'' \<noteq> []"
    by (simp add: cachedRow_def)
  from t3 d1 e1 have e: "cachedRow \<notin> set (calendarEvents
      (snd (cleanupOldEvents laterClock (Some ''int-1'') ?d)))"
    by blast
  from a b c d e show ?thesis by blast
qed










lemma incremental_without_token:
  assumes "findIntegration d i = Some integ" and "\<not> truthy (ci_syncToken integ)"
  shows "performIncrementalSync env i d = performFullSync env i d"
  using assms by (simp add: performIncrementalSync_def performFullSync_def split: option.splits)

text \<open>
  Claim C5. Without a stored continuation token \<open>performIncrementalSync\<close> is
  \<open>performFullSync\<close>. With a stored token that the provider rejects it does not fall
  back: on the input below the incremental sync returns the error result and caches
  nothing, where a full sync of the same store succeeds with two events.
\<close>

theorem rejected_token_is_not_resynced:
  "(findIntegration d i = Some integ \<and> \<not> truthy (ci_syncToken integ) \<longrightarrow>
      performIncrementalSync env i d = performFullSync env i d) \<and>
   listEvents tokenRejected ''primary''
       \<lparr> lo_syncToken = Some ''token-1'', lo_timeMin = None, lo_timeMax = None \<rparr>
     = Inl ''Sync token is no longer valid'' \<and>
   performIncrementalSync tokenRejected ''int-1'' (syncDb (Some ''token-1'')) =
     (Inr \<lparr> eventsSynced = 0, sr_nextSyncToken = None, sr_lastSyncAt = 1000,
            hasError = True, errorMessage = Some ''Sync token is no longer valid'' \<rparr>,
      (syncDb (Some ''token-1''))\<lparr> calendarIntegrations :=
         [(connected (Some ''token-1''))\<lparr> ci_syncStatus := ''error'',
             ci_syncError := Some ''Sync token is no longer valid'' \<rparr>] \<rparr>) \<and>
   fst (performFullSync tokenRejected ''int-1'' (syncDb (Some ''token-1''))) =
     Inr \<lparr> eventsSynced = 2, sr_nextSyncToken = Some ''token-2'', sr_lastSyncAt = 1000,
           hasError = False, errorMessage = None \<rparr>"
proof (intro conjI impI)
  assume "findIntegration d i = Some integ \<and> \<not> truthy (ci_syncToken integ)"
  then show "performIncrementalSync env i d = performFullSync env i d"
    using incremental_without_token by blast
next
  show "listEvents tokenRejected ''primary''
       \<lparr> lo_syncToken = Some ''token-1'', lo_timeMin = None, lo_timeMax = None \<rparr>
     = Inl ''Sync token is no longer valid''"
    by (simp add: tokenRejected_def)
next
  show "performIncrementalSync tokenRejected ''int-1'' (syncDb (Some ''token-1'')) =
     (Inr \<lparr> eventsSynced = 0, sr_nextSyncToken = None, sr_lastSyncAt = 1000,
            hasError = True, errorMessage = Some ''Sync token is no longer valid'' \<rparr>,
      (syncDb (Some ''token-1''))\<lparr> calendarIntegrations :=
         [(connected (Some ''token-1''))\<lparr> ci_syncStatus := ''error'',
             ci_syncError := Some ''Sync token is no longer valid'' \<rparr>] \<rparr>)"
    by (simp add: performIncrementalSync_def syncWith_def syncFailed_def findIntegration_def
        updateIntegration_def tokenRejected_def goodProvider_def syncDb_def connected_def)
next
  show "fst (performFullSync tokenRejected ''int-1'' (syncDb (Some ''token-1''))) =
     Inr \<lparr> eventsSynced = 2, sr_nextSyncToken = Some ''token-2'', sr_lastSyncAt = 1000,
           hasError = False, errorMessage = None \<rparr>"
    by (simp add: performFullSync_def syncWith_def syncSucceeded_def findIntegration_def
        updateIntegration_def tokenRejected_def goodProvider_def syncDb_def connected_def
        twoEvents_def meeting_def fullWindow_def Let_def)
qed

text \<open>
  Claim C5 on a store without a continuation token, and the error flag of the run whose
  token was rejected.
\<close>

theorem rejected_token_is_not_resynced_witness:
  "findIntegration (syncDb None) ''int-1'' = Some (connected None) \<and>
   \<not> truthy (ci_syncToken (connected None)) \<and>
   performIncrementalSync tokenRejected ''int-1'' (syncDb None)
     = performFullSync tokenRejected ''int-1'' (syncDb None) \<and>
   hasError (projr (fst (performIncrementalSync tokenRejected ''int-1''
                           (syncDb (Some ''token-1'')))))"
proof -
  have f: "findIntegration (syncDb None) ''int-1'' = Some (connected None) \<and>
           \<not> truthy (ci_syncToken (connected None))"
    by (simp add: findIntegration_def syncDb_def connected_def)
  note t = rejected_token_is_not_resynced
    [where d = "syncDb None" and i = "''int-1''" and integ = "connected None"
       and env = tokenRejected]
  from t f have "performIncrementalSync tokenRejected ''int-1'' (syncDb None)
     = performFullSync tokenRejected ''int-1'' (syncDb None)"
    by blast
  moreover from t have "hasError (projr (fst (performIncrementalSync tokenRejected ''int-1''
                           (syncDb (Some ''token-1'')))))"
    by simp
  ultimately show ?thesis using f by blast
qed

section \<open>CalendarAuthService: theorems\<close>

lemma refreshTokens_throws:
  "isl (fst (refreshTokens env i d)) \<and> snd (refreshTokens env i d) = d"
  by (simp add: refreshTokens_def refreshAccessToken_def split: option.splits sum.splits)

lemma refreshTokens_no_client_credential:
  assumes "findIntegration d i = Some integ"
    and "truthy (ci_refreshToken integ)"
    and "symmetricDecrypt env (the (ci_refreshToken integ)) = Inr refreshToken"
    and "getGoogleAppKeys env = Inr keys"
  shows "refreshTokens env i d = (Inl ''No refresh token is set.'', d)"
  using assms by (simp add: refreshTokens_def refreshAccessToken_def)

lemma ensureValidToken_refresh:
  assumes "findIntegration d i = Some integ"
    and "ci_tokenExpiresAt integ = Some expiresAt"
    and "expiresAt - a_now env < 5 * 60 * 1000"
  shows "ensureValidToken env i d = refreshTokens env i d"
  using assms by (simp add: ensureValidToken_def fiveMinutes_def)

lemma ensureValidToken_fresh:
  assumes "findIntegration d i = Some integ"
    and "ci_tokenExpiresAt integ = Some expiresAt"
    and "\<not> expiresAt - a_now env < 5 * 60 * 1000"
  shows "ensureValidToken env i d = (Inr (), d)"
  using assms by (simp add: ensureValidToken_def fiveMinutes_def)

text \<open>
  Claim C8. When the stored expiry is less than 5 minutes after the clock reading,
  \<open>ensureValidToken\<close> is \<open>refreshTokens\<close>, and that call never refreshes: it
  throws and leaves the store as it was, whatever the provider would answer. With a stored
  refresh credential that decrypts and application keys at hand, the error is the OAuth
  library's \<open>No refresh token is set.\<close>, as the client was never given the stored
  refresh credential. On the input below the claim fails: the credential expires 199
  seconds after the clock reading, the provider would answer a refresh request, and
  \<open>ensureValidToken\<close> throws with the credential unchanged. A credential that expires
  5 minutes or more after the clock reading is left alone and the call returns.
\<close>

theorem expiring_credential_is_never_refreshed:
  "(findIntegration d i = Some integ \<and> ci_tokenExpiresAt integ = Some expiresAt \<and>
    expiresAt - a_now env < 5 * 60 * 1000 \<longrightarrow>
      ensureValidToken env i d = refreshTokens env i d \<and>
      isl (fst (ensureValidToken env i d)) \<and> snd (ensureValidToken env i d) = d) \<and>
   (findIntegration d i = Some integ \<and> truthy (ci_refreshToken integ) \<and>
    symmetricDecrypt env (the (ci_refreshToken integ)) = Inr refreshToken \<and>
    getGoogleAppKeys env = Inr keys \<longrightarrow>
      refreshTokens env i d = (Inl ''No refresh token is set.'', d)) \<and>
   (findIntegration d i = Some integ \<and> ci_tokenExpiresAt integ = Some expiresAt \<and>
    \<not> expiresAt - a_now env < 5 * 60 * 1000 \<longrightarrow>
      ensureValidToken env i d = (Inr (), d)) \<and>
   ensureValidToken demoAuth ''int-1'' (authDb 200000)
     = (Inl ''No refresh token is set.'', authDb 200000)"
proof (intro conjI impI)
  assume h: "findIntegration d i = Some integ \<and> ci_tokenExpiresAt integ = Some expiresAt \<and>
    expiresAt - a_now env < 5 * 60 * 1000"
  then show eq: "ensureValidToken env i d = refreshTokens env i d"
    using ensureValidToken_refresh by blast
  show "isl (fst (ensureValidToken env i d))"
    unfolding eq using refreshTokens_throws by blast
  show "snd (ensureValidToken env i d) = d"
    unfolding eq using refreshTokens_throws by blast
next
  assume "findIntegration d i = Some integ \<and> truthy (ci_refreshToken integ) \<and>
    symmetricDecrypt env (the (ci_refreshToken integ)) = Inr refreshToken \<and>
    getGoogleAppKeys env = Inr keys"
  then show "refreshTokens env i d = (Inl ''No refresh token is set.'', d)"
    using refreshTokens_no_client_credential by blast
next
  assume "findIntegration d i = Some integ \<and> ci_tokenExpiresAt integ = Some expiresAt \<and>
    \<not> expiresAt - a_now env < 5 * 60 * 1000"
  then show "ensureValidToken env i d = (Inr (), d)"
    using ensureValidToken_fresh by blast
next
  show "ensureValidToken demoAuth ''int-1'' (authDb 200000)
     = (Inl ''No refresh token is set.'', authDb 200000)"
    by (simp add: ensureValidToken_def refreshTokens_def refreshAccessToken_def
        findIntegration_def fiveMinutes_def authDb_def expiring_def demoAuth_def)
qed

text \<open>
  Claim C8 on a credential that expires 199 seconds after the clock reading (the call
  throws, nothing is stored) and on one that expires 300 seconds after it (left alone).
\<close>

theorem expiring_credential_is_never_refreshed_witness:
  "findIntegration (authDb 200000) ''int-1'' = Some (expiring 200000) \<and>
   200000 - a_now demoAuth < 5 * 60 * 1000 \<and>
   truthy (ci_refreshToken (expiring 200000)) \<and>
   tokenEndpoint demoAuth ''refresh-1'' = Inr demoAnswer \<and>
   isl (fst (ensureValidToken demoAuth ''int-1'' (authDb 200000))) \<and>
   snd (ensureValidToken demoAuth ''int-1'' (authDb 200000)) = authDb 200000 \<and>
   refreshTokens demoAuth ''int-1'' (authDb 200000)
     = (Inl ''No refresh token is set.'', authDb 200000) \<and>
   ensureValidToken demoAuth ''int-1'' (authDb 301000) = (Inr (), authDb 301000)"
proof -
  have h1: "findIntegration (authDb 200000) ''int-1'' = Some (expiring 200000) \<and>
            ci_tokenExpiresAt (expiring 200000) = Some 200000 \<and>
            200000 - a_now demoAuth < 5 * 60 * 1000"
    by (simp add: findIntegration_def authDb_def expiring_def demoAuth_def)
  have h2: "truthy (ci_refreshToken (expiring 200000)) \<and>
            symmetricDecrypt demoAuth (the (ci_refreshToken (expiring 200000)))
              = Inr ''refresh-1'' \<and>
            getGoogleAppKeys demoAuth = Inr (''client-id'', ''client-secret'')"
    by (simp add: expiring_def demoAuth_def)
  have h3: "findIntegration (authDb 301000) ''int-1'' = Some (expiring 301000) \<and>
            ci_tokenExpiresAt (expiring 301000) = Some 301000 \<and>
            \<not> 301000 - a_now demoAuth < 5 * 60 * 1000"
    by (simp add: findIntegration_def authDb_def expiring_def demoAuth_def)
  have te: "tokenEndpoint demoAuth ''refresh-1'' = Inr demoAnswer"
    by (simp add: demoAuth_def)
  note t1 = expiring_credential_is_never_refreshed
    [where d = "authDb 200000" and i = "''int-1''" and integ = "expiring 200000"
       and expiresAt = 200000 and env = demoAuth and refreshToken = "''refresh-1''"
       and keys = "(''client-id'', ''client-secret'')"]
  note t2 = expiring_credential_is_never_refreshed
    [where d = "authDb 301000" and i = "''int-1''" and integ = "expiring 301000"
       and expiresAt = 301000 and env = demoAuth]
  from t1 h1 have a: "isl (fst (ensureValidToken demoAuth ''int-1'' (authDb 200000))) \<and>
      snd (ensureValidToken demoAuth ''int-1'' (authDb 200000)) = authDb 200000"
    by blast
  from t1 h1 h2 have b: "refreshTokens demoAuth ''int-1'' (authDb 200000)
     = (Inl ''No refresh token is set.'', authDb 200000)"
    by blast
  from t2 h3 have c: "ensureValidToken demoAuth ''int-1'' (authDb 301000)
     = (Inr (), authDb 301000)"
    by blast
  from h1 h2 te a b c show ?thesis by blast
qed

section \<open>MinimalAvailabilityService: theorems\<close>

lemmas slot_eval =
  calculateAvailableSlots_def mondayRequest_def mondayDb_def mondayBlock_def
  calendarOf_def mondayBusy_def getCalendarEvents_def rangeBookings_def
  generateSlotsFromBlock_def dayLoop.simps daySlots_def slotLoop.simps utcEnv_def
  convertToUTC_def mkSlot_def slotIsFree_def slotsOverlap_def slotAt_def Let_def

text \<open>
  Claim C3. On the input below the claim fails. One incremental sync against a provider
  that is down takes the store from status active to status error and keeps the cache,
  which holds a busy interval on Monday 10:00 to 10:30. On that store
  \<open>calculateAvailableSlots\<close> offers all sixteen slots of the Monday block, the slot
  10:00 to 10:30 among them; with the integration in status active the same call leaves
  that slot out.
\<close>

theorem stale_calendar_slots_offered:
  "snd (performIncrementalSync providerDown ''int-1'' (mondayDb ''active''))
     = mondayDb ''error'' \<and>
   calculateAvailableSlots utcEnv mondayRequest (mondayDb ''error'') =
     Some (map slotAt [378000000, 379800000, 381600000, 383400000, 385200000, 387000000, 388800000, 390600000, 392400000, 394200000, 396000000, 397800000, 399600000, 401400000, 403200000, 405000000]) \<and>
   slotsOverlap (ts_startTime (slotAt 381600000), ts_endTime (slotAt 381600000))
     (ev_startTime mondayBusy, ev_endTime mondayBusy) \<and>
   ev_isBusy mondayBusy \<and>
   ev_calendarIntegrationId mondayBusy = ci_id (calendarOf ''error'') \<and>
   ci_userId (calendarOf ''error'') = cs_userId mondayRequest \<and>
   calculateAvailableSlots utcEnv mondayRequest (mondayDb ''active'') =
     Some (map slotAt [378000000, 379800000, 383400000, 385200000, 387000000, 388800000, 390600000, 392400000, 394200000, 396000000, 397800000, 399600000, 401400000, 403200000, 405000000])"
proof -
  have "snd (performIncrementalSync providerDown ''int-1'' (mondayDb ''active''))
     = mondayDb ''error''"
    by (simp add: performIncrementalSync_def syncWith_def syncFailed_def findIntegration_def
        updateIntegration_def providerDown_def goodProvider_def mondayDb_def calendarOf_def)
  then show ?thesis by (simp add: slot_eval)
qed

text \<open>
  Claim C3: some offered slot overlaps the cached busy interval when the integration is in
  status error, none when it is active.
\<close>

theorem stale_calendar_slots_offered_witness:
  "list_ex (\<lambda>slot. slotsOverlap (ts_startTime slot, ts_endTime slot)
                      (ev_startTime mondayBusy, ev_endTime mondayBusy))
     (the (calculateAvailableSlots utcEnv mondayRequest (mondayDb ''error''))) \<and>
   \<not> list_ex (\<lambda>slot. slotsOverlap (ts_startTime slot, ts_endTime slot)
                        (ev_startTime mondayBusy, ev_endTime mondayBusy))
       (the (calculateAvailableSlots utcEnv mondayRequest (mondayDb ''active'')))"
  using stale_calendar_slots_offered
  by (simp add: slotAt_def mkSlot_def slotsOverlap_def mondayBusy_def)

lemma slotLoop_nonneg_inRange:
  assumes "slotLoop env tz dur maxEnd s acc = Some r"
    and "0 \<le> dur"
    and "list_all (inRange lo hi) acc" and "lo \<le> s" and "maxEnd \<le> hi"
  shows "list_all (inRange lo hi) r"
  using assms
proof (induction rule: slotLoop.raw_induct [rotated 1, consumes 1])
  case (1 loop env tz dur maxEnd s acc r)
  show ?case
  proof (cases "s + dur \<le> maxEnd")
    case True
    with 1(2) have call: "loop env tz dur maxEnd (s + dur)
        (acc @ [mkSlot env tz s (s + dur)]) = Some r"
      by simp
    have new: "inRange lo hi (mkSlot env tz s (s + dur))"
      using True 1(5,6) by (simp add: inRange_def mkSlot_def)
    from 1(3,5) have lo: "lo \<le> s + dur" by simp
    show ?thesis
      using 1(1) [OF call 1(3) _ lo 1(6)] new 1(4) by simp
  next
    case False
    with 1(2,4) show ?thesis by simp
  qed
qed

lemma slotLoop_nonpos_diverges:
  assumes "slotLoop env tz dur maxEnd s acc = Some r"
    and "dur \<le> 0" and "s + dur \<le> maxEnd"
  shows "False"
  using assms
proof (induction rule: slotLoop.raw_induct [rotated 1, consumes 1])
  case (1 loop env tz dur maxEnd s acc r)
  from 1(2,4) have call: "loop env tz dur maxEnd (s + dur)
        (acc @ [mkSlot env tz s (s + dur)]) = Some r"
    by simp
  from 1(3,4) have "s + dur + dur \<le> maxEnd" by simp
  with 1(1) [OF call 1(3)] show ?case by simp
qed

lemma slotLoop_inRange:
  assumes "slotLoop env tz dur maxEnd s acc = Some r"
    and "list_all (inRange lo hi) acc" and "lo \<le> s" and "maxEnd \<le> hi"
  shows "list_all (inRange lo hi) r"
proof (cases "0 \<le> dur")
  case True
  show ?thesis by (rule slotLoop_nonneg_inRange [OF assms(1) True assms(2,3,4)])
next
  case False
  then have neg: "dur \<le> 0" by simp
  show ?thesis
  proof (cases "s + dur \<le> maxEnd")
    case True
    with assms(1) neg show ?thesis using slotLoop_nonpos_diverges by blast
  next
    case False
    with assms(1) have "r = acc" by (simp add: slotLoop.simps)
    with assms(2) show ?thesis by simp
  qed
qed

lemma daySlots_inRange:
  assumes "daySlots env block startDate endDate tz dur cur acc = Some r"
    and "list_all (inRange startDate endDate) acc"
  shows "list_all (inRange startDate endDate) r"
  using assms(1)
  unfolding daySlots_def Let_def
  by (rule slotLoop_inRange) (simp_all add: assms(2))

lemma dayLoop_inRange:
  assumes "dayLoop env block startDate endDate tz dur cur acc = Some r"
    and "list_all (inRange startDate endDate) acc"
  shows "list_all (inRange startDate endDate) r"
  using assms
proof (induction rule: dayLoop.raw_induct [rotated 1, consumes 1])
  case (1 loop env block startDate endDate tz dur cur acc r)
  show ?case
  proof (cases "cur \<le> endDate")
    case False
    with 1(2,3) show ?thesis by simp
  next
    case True
    note inside = True
    show ?thesis
    proof (cases "getDay env cur = ab_dayOfWeek block")
      case False
      with inside 1(2) have "loop env block startDate endDate tz dur
          (setHours env (setDateNext env cur) 0 0) acc = Some r"
        by simp
      then show ?thesis using 1(3) by (rule 1(1))
    next
      case True
      with inside 1(2) obtain mid where
        day: "daySlots env block startDate endDate tz dur cur acc = Some mid" and
        rest: "loop env block startDate endDate tz dur
                 (setHours env (setDateNext env cur) 0 0) mid = Some r"
        by (cases "daySlots env block startDate endDate tz dur cur acc") simp_all
      from day 1(3) have "list_all (inRange startDate endDate) mid"
        by (rule daySlots_inRange)
      with rest show ?thesis by (rule 1(1))
    qed
  qed
qed

lemma collectSlots_inRange:
  assumes "collectSlots env startDate endDate tz m blocks acc = Some r"
    and "list_all (inRange startDate endDate) acc"
  shows "list_all (inRange startDate endDate) r"
  using assms
proof (induction blocks arbitrary: acc)
  case Nil
  then show ?case by simp
next
  case (Cons block blocks)
  from Cons.prems(1) obtain slots where
    gen: "generateSlotsFromBlock env block startDate endDate tz m = Some slots" and
    rest: "collectSlots env startDate endDate tz m blocks (acc @ slots) = Some r"
    by (cases "generateSlotsFromBlock env block startDate endDate tz m") simp_all
  from gen have "list_all (inRange startDate endDate) slots"
    unfolding generateSlotsFromBlock_def by (rule dayLoop_inRange) simp
  with Cons.prems(2) have "list_all (inRange startDate endDate) (acc @ slots)" by simp
  with rest show ?case by (rule Cons.IH)
qed

lemma free_clear_of_bookings:
  assumes "slotIsFree evs (rangeBookings d userId startDate endDate) slot"
    and "inRange startDate endDate slot"
  shows "clearOfBookings d userId slot"
proof -
  have "\<not> (b_userId b = userId \<and> (b_status b = PENDING \<or> b_status b = CONFIRMED) \<and>
            slotsOverlap (ts_startTime slot, ts_endTime slot) (b_startTime b, b_endTime b))"
    if "b \<in> set (bookings d)" for b
  proof
    assume h: "b_userId b = userId \<and> (b_status b = PENDING \<or> b_status b = CONFIRMED) \<and>
            slotsOverlap (ts_startTime slot, ts_endTime slot) (b_startTime b, b_endTime b)"
    with assms(2) have "b_startTime b \<le> endDate \<and> b_endTime b \<ge> startDate"
      by (simp add: slotsOverlap_def inRange_def)
    with h that have "b \<in> set (rangeBookings d userId startDate endDate)"
      by (simp add: rangeBookings_def)
    with h have "list_ex (\<lambda>booking. slotsOverlap (ts_startTime slot, ts_endTime slot)
                     (b_startTime booking, b_endTime booking))
                   (rangeBookings d userId startDate endDate)"
      unfolding list_ex_iff by blast
    with assms(1) show False
      by (simp add: slotIsFree_def Let_def split: if_splits)
  qed
  then show ?thesis by (simp add: clearOfBookings_def list_all_iff)
qed

lemma free_clear_of_calendar:
  assumes "slotIsFree (getCalendarEvents d userId startDate endDate) bs slot"
    and "inRange startDate endDate slot"
  shows "clearOfActiveCalendar d userId slot"
proof (cases "find (\<lambda>i. ci_userId i = userId \<and> ci_type i = ''google-calendar'' \<and>
                       ci_syncStatus i = ''active'') (calendarIntegrations d)")
  case None
  then show ?thesis by (simp add: clearOfActiveCalendar_def)
next
  case (Some integration)
  have "\<not> (ev_calendarIntegrationId e = ci_id integration \<and> ev_isBusy e \<and>
            slotsOverlap (ts_startTime slot, ts_endTime slot) (ev_startTime e, ev_endTime e))"
    if "e \<in> set (calendarEvents d)" for e
  proof
    assume h: "ev_calendarIntegrationId e = ci_id integration \<and> ev_isBusy e \<and>
            slotsOverlap (ts_startTime slot, ts_endTime slot) (ev_startTime e, ev_endTime e)"
    with assms(2) have "ev_startTime e \<le> endDate \<and> ev_endTime e \<ge> startDate"
      by (simp add: slotsOverlap_def inRange_def)
    with h that Some have
      "(ev_startTime e, ev_endTime e) \<in> set (getCalendarEvents d userId startDate endDate)"
      by (simp add: getCalendarEvents_def image_iff) blast
    with h have "list_ex (\<lambda>event. slotsOverlap (ts_startTime slot, ts_endTime slot) event)
                   (getCalendarEvents d userId startDate endDate)"
      unfolding list_ex_iff by blast
    with assms(1) show False
      by (simp add: slotIsFree_def Let_def split: if_splits)
  qed
  with Some show ?thesis by (simp add: clearOfActiveCalendar_def list_all_iff)
qed

lemma calculateAvailableSlots_cases:
  assumes "calculateAvailableSlots env input d = Some slots"
  shows "slots = [] \<or>
         (\<exists>allSlots. list_all (inRange (cs_startDate input) (cs_endDate input)) allSlots \<and>
            slots = sort_key ts_startTime
              (filter (slotIsFree
                         (getCalendarEvents d (cs_userId input) (cs_startDate input)
                            (cs_endDate input))
                         (rangeBookings d (cs_userId input) (cs_startDate input)
                            (cs_endDate input)))
                 allSlots))"
proof (cases "filter (\<lambda>b. ab_userId b = cs_userId input \<and> ab_isActive b)
                (availabilityBlocks d) = []")
  case True
  with assms show ?thesis by (simp add: calculateAvailableSlots_def Let_def)
next
  case False
  with assms obtain allSlots where
    c: "collectSlots env (cs_startDate input) (cs_endDate input) (cs_userTimezone input)
          (case cs_slotDurationMinutes input of None \<Rightarrow> 30 | Some m \<Rightarrow> m)
          (filter (\<lambda>b. ab_userId b = cs_userId input \<and> ab_isActive b) (availabilityBlocks d))
          [] = Some allSlots" and
    r: "slots = sort_key ts_startTime
              (filter (slotIsFree
                         (getCalendarEvents d (cs_userId input) (cs_startDate input)
                            (cs_endDate input))
                         (rangeBookings d (cs_userId input) (cs_startDate input)
                            (cs_endDate input)))
                 allSlots)"
    by (auto simp: calculateAvailableSlots_def Let_def split: bind_splits)
  from c have "list_all (inRange (cs_startDate input) (cs_endDate input)) allSlots"
    by (rule collectSlots_inRange) simp
  with r show ?thesis by blast
qed

lemma available_slots_sorted_and_clear:
  "calculateAvailableSlots env input d = Some slots \<longrightarrow>
     sorted (map ts_startTime slots) \<and>
     list_all (inRange (cs_startDate input) (cs_endDate input)) slots \<and>
     list_all (clearOfBookings d (cs_userId input)) slots \<and>
     list_all (clearOfActiveCalendar d (cs_userId input)) slots"
proof
  assume a: "calculateAvailableSlots env input d = Some slots"
  from calculateAvailableSlots_cases [OF a] show
    "sorted (map ts_startTime slots) \<and>
     list_all (inRange (cs_startDate input) (cs_endDate input)) slots \<and>
     list_all (clearOfBookings d (cs_userId input)) slots \<and>
     list_all (clearOfActiveCalendar d (cs_userId input)) slots"
  proof
    assume "slots = []"
    then show ?thesis by simp
  next
    assume "\<exists>allSlots. list_all (inRange (cs_startDate input) (cs_endDate input)) allSlots \<and>
            slots = sort_key ts_startTime
              (filter (slotIsFree
                         (getCalendarEvents d (cs_userId input) (cs_startDate input)
                            (cs_endDate input))
                         (rangeBookings d (cs_userId input) (cs_startDate input)
                            (cs_endDate input)))
                 allSlots)"
    then obtain allSlots where
      rng: "list_all (inRange (cs_startDate input) (cs_endDate input)) allSlots" and
      r: "slots = sort_key ts_startTime
              (filter (slotIsFree
                         (getCalendarEvents d (cs_userId input) (cs_startDate input)
                            (cs_endDate input))
                         (rangeBookings d (cs_userId input) (cs_startDate input)
                            (cs_endDate input)))
                 allSlots)"
      by blast
    have mem: "inRange (cs_startDate input) (cs_endDate input) slot \<and>
               slotIsFree (getCalendarEvents d (cs_userId input) (cs_startDate input)
                            (cs_endDate input))
                          (rangeBookings d (cs_userId input) (cs_startDate input)
                            (cs_endDate input)) slot"
      if "slot \<in> set slots" for slot
      using that rng r by (simp add: list_all_iff)
    have s: "sorted (map ts_startTime slots)"
      unfolding r by (rule sorted_sort_key)
    have i: "list_all (inRange (cs_startDate input) (cs_endDate input)) slots"
      using mem by (simp add: list_all_iff)
    have b: "list_all (clearOfBookings d (cs_userId input)) slots"
      using mem free_clear_of_bookings by (simp add: list_all_iff) blast
    have c: "list_all (clearOfActiveCalendar d (cs_userId input)) slots"
      using mem free_clear_of_calendar by (simp add: list_all_iff) blast
    from s i b c show ?thesis by blast
  qed
qed

lemma slotLoop_returns:
  assumes "0 < dur"
  shows "\<exists>r. slotLoop env tz dur maxEnd s acc = Some r"
proof (induction "nat (maxEnd - s)" arbitrary: s acc rule: less_induct)
  case less
  show ?case
  proof (cases "s + dur \<le> maxEnd")
    case True
    with assms have "nat (maxEnd - (s + dur)) < nat (maxEnd - s)" by simp
    then obtain r where
      "slotLoop env tz dur maxEnd (s + dur) (acc @ [mkSlot env tz s (s + dur)]) = Some r"
      using less.hyps by blast
    with True show ?thesis by (subst slotLoop.simps) simp
  next
    case False
    then show ?thesis by (subst slotLoop.simps) simp
  qed
qed

lemma dayLoop_returns:
  assumes "0 < dur" and "\<And>t. t < setHours env (setDateNext env t) 0 0"
  shows "\<exists>r. dayLoop env block startDate endDate tz dur cur acc = Some r"
proof (induction "nat (endDate + 1 - cur)" arbitrary: cur acc rule: less_induct)
  case less
  show ?case
  proof (cases "cur \<le> endDate")
    case False
    then show ?thesis by (subst dayLoop.simps) simp
  next
    case True
    have "\<exists>mid. daySlots env block startDate endDate tz dur cur acc = Some mid"
      unfolding daySlots_def Let_def using assms(1) by (rule slotLoop_returns)
    then obtain mid where mid:
      "(if getDay env cur = ab_dayOfWeek block
        then daySlots env block startDate endDate tz dur cur acc else Some acc) = Some mid"
      by (cases "getDay env cur = ab_dayOfWeek block") auto
    from True assms(2) [of cur]
    have "nat (endDate + 1 - setHours env (setDateNext env cur) 0 0) < nat (endDate + 1 - cur)"
      by simp
    then obtain r where
      "dayLoop env block startDate endDate tz dur (setHours env (setDateNext env cur) 0 0) mid
         = Some r"
      using less.hyps by blast
    with True mid show ?thesis by (subst dayLoop.simps) simp
  qed
qed

lemma collectSlots_returns:
  assumes "0 < m" and "\<And>t. t < setHours env (setDateNext env t) 0 0"
  shows "\<exists>r. collectSlots env startDate endDate tz m blocks acc = Some r"
proof (induction blocks arbitrary: acc)
  case Nil
  show ?case by simp
next
  case (Cons block blocks)
  from assms(1) have "0 < m * 60 * 1000" by simp
  then obtain slots where
    "generateSlotsFromBlock env block startDate endDate tz m = Some slots"
    unfolding generateSlotsFromBlock_def using dayLoop_returns assms(2) by blast
  moreover obtain r where
    "collectSlots env startDate endDate tz m blocks (acc @ slots) = Some r"
    using Cons.IH by blast
  ultimately show ?case by simp
qed

lemma calculateAvailableSlots_returns:
  assumes "0 < (case cs_slotDurationMinutes input of None \<Rightarrow> 30 | Some m \<Rightarrow> m)"
    and "\<And>t. t < setHours env (setDateNext env t) 0 0"
  shows "\<exists>slots. calculateAvailableSlots env input d = Some slots"
proof -
  obtain allSlots where
    "collectSlots env (cs_startDate input) (cs_endDate input) (cs_userTimezone input)
       (case cs_slotDurationMinutes input of None \<Rightarrow> 30 | Some m \<Rightarrow> m)
       (filter (\<lambda>b. ab_userId b = cs_userId input \<and> ab_isActive b) (availabilityBlocks d))
       [] = Some allSlots"
    using collectSlots_returns [OF assms] by blast
  then show ?thesis by (simp add: calculateAvailableSlots_def Let_def)
qed

text \<open>
  \<open>calculateAvailableSlots\<close> returns whenever the slot duration is positive and the
  runtime's next local midnight is later than the date it is taken from. Whatever it
  returns is sorted ascending by start time, lies within the requested range, overlaps no
  pending or confirmed booking of the admin, and overlaps no busy cached event of the
  admin's google-calendar integration in status active.
\<close>

theorem available_slots_returned_sorted_and_clear:
  "(0 < (case cs_slotDurationMinutes input of None \<Rightarrow> 30 | Some m \<Rightarrow> m) \<and>
    (\<forall>t. t < setHours env (setDateNext env t) 0 0) \<longrightarrow>
      calculateAvailableSlots env input d \<noteq> None) \<and>
   (calculateAvailableSlots env input d = Some slots \<longrightarrow>
      sorted (map ts_startTime slots) \<and>
      list_all (inRange (cs_startDate input) (cs_endDate input)) slots \<and>
      list_all (clearOfBookings d (cs_userId input)) slots \<and>
      list_all (clearOfActiveCalendar d (cs_userId input)) slots)"
  using calculateAvailableSlots_returns [of input env d]
    available_slots_sorted_and_clear [of env input d slots]
  by auto

text \<open>
  The Monday of the runs above, with the integration in status active.
\<close>

theorem available_slots_returned_sorted_and_clear_witness:
  "calculateAvailableSlots utcEnv mondayRequest (mondayDb ''active'') =
     Some (map slotAt [378000000, 379800000, 383400000, 385200000, 387000000, 388800000, 390600000, 392400000, 394200000, 396000000, 397800000, 399600000, 401400000, 403200000, 405000000]) \<and>
   calculateAvailableSlots utcEnv mondayRequest (mondayDb ''active'') \<noteq> None \<and>
   sorted (map ts_startTime (map slotAt [378000000, 379800000, 383400000, 385200000, 387000000, 388800000, 390600000, 392400000, 394200000, 396000000, 397800000, 399600000, 401400000, 403200000, 405000000])) \<and>
   list_all (clearOfActiveCalendar (mondayDb ''active'') (cs_userId mondayRequest))
     (map slotAt [378000000, 379800000, 383400000, 385200000, 387000000, 388800000, 390600000, 392400000, 394200000, 396000000, 397800000, 399600000, 401400000, 403200000, 405000000])"
proof -
  have v: "calculateAvailableSlots utcEnv mondayRequest (mondayDb ''active'') =
     Some (map slotAt [378000000, 379800000, 383400000, 385200000, 387000000, 388800000, 390600000, 392400000, 394200000, 396000000, 397800000, 399600000, 401400000, 403200000, 405000000])"
    by (simp add: slot_eval)
  have adv: "0 < (case cs_slotDurationMinutes mondayRequest of None \<Rightarrow> 30 | Some m \<Rightarrow> m) \<and>
    (\<forall>t. t < setHours utcEnv (setDateNext utcEnv t) 0 0)"
  proof -
    have "t < ((t + 86400000) div 86400000) * 86400000" for t :: int
    proof -
      have "(t + 86400000) mod 86400000 < 86400000" by simp
      moreover have "((t + 86400000) div 86400000) * 86400000 =
          t + 86400000 - (t + 86400000) mod 86400000"
        by (simp add: minus_mod_eq_div_mult [symmetric])
      ultimately show ?thesis by linarith
    qed
    then show ?thesis by (simp add: utcEnv_def mondayRequest_def)
  qed
  from available_slots_returned_sorted_and_clear
    [where env = utcEnv and input = mondayRequest and d = "mondayDb ''active''"
       and slots = "map slotAt [378000000, 379800000, 383400000, 385200000, 387000000, 388800000, 390600000, 392400000, 394200000, 396000000, 397800000, 399600000, 401400000, 403200000, 405000000]"] v adv
  show ?thesis by blast
qed

end
